theory Spec2Isabelle
  imports Complex_Main "HOL-Library.Word"
begin

section \<open>Python values used by the transcriber and the capture pipeline\<close>

text \<open>
  Text is a list of 8-bit characters, read as the code points 0..255 of a Python
  \<^verbatim>\<open>str\<close>. Audio samples (numpy \<^verbatim>\<open>float32\<close> arrays) are lists of reals: the rounding of
  the floating-point operations is abstracted, the structure of every computation is kept.
  Clock readings (\<^verbatim>\<open>time.time()\<close>) are reals handed in by the caller of each operation.
\<close>

type_synonym byte = "8 word"

type_synonym samples = "real list"

text \<open>\<^verbatim>\<open>str.isspace()\<close> on one character, for the code points below 256.\<close>

definition py_isspace_char :: "char \<Rightarrow> bool" where
  "py_isspace_char c = ((of_char c :: nat) \<in> {9, 10, 11, 12, 13, 28, 29, 30, 31, 32, 133, 160})"

text \<open>\<^verbatim>\<open>s.isspace()\<close>: at least one character, and all of them whitespace.\<close>

definition py_isspace :: "string \<Rightarrow> bool" where
  "py_isspace s = (s \<noteq> [] \<and> list_all py_isspace_char s)"

text \<open>\<^verbatim>\<open>s.strip()\<close>: whitespace removed at both ends.\<close>

definition py_strip :: "string \<Rightarrow> string" where
  "py_strip s = rev (dropWhile py_isspace_char (rev (dropWhile py_isspace_char s)))"

text \<open>\<^verbatim>\<open>int(x)\<close> of a float: truncation towards zero.\<close>

definition py_int :: "real \<Rightarrow> int" where
  "py_int x = (if 0 \<le> x then \<lfloor>x\<rfloor> else \<lceil>x\<rceil>)"

text \<open>The slices \<^verbatim>\<open>xs[:k]\<close> and \<^verbatim>\<open>xs[k:]\<close>; a negative bound counts from the end.\<close>

definition slice_to :: "'a list \<Rightarrow> int \<Rightarrow> 'a list" where
  "slice_to xs k = (if 0 \<le> k then take (nat k) xs else take (length xs - nat (- k)) xs)"

definition slice_from :: "'a list \<Rightarrow> int \<Rightarrow> 'a list" where
  "slice_from xs k = (if 0 \<le> k then drop (nat k) xs else drop (length xs - nat (- k)) xs)"

text \<open>\<^verbatim>\<open>collections.deque(maxlen=n).append(x)\<close>: the oldest entries fall out on the left.\<close>

definition deque_append :: "nat \<Rightarrow> 'a list \<Rightarrow> 'a \<Rightarrow> 'a list" where
  "deque_append maxlen d x = (let d' = d @ [x] in drop (length d' - maxlen) d')"

text \<open>
  A parsed JSON value (the result of \<^verbatim>\<open>json.loads\<close> or \<^verbatim>\<open>response.json()\<close>). An object is
  the list of the items of the Python dict.
\<close>

datatype json =
    JNull
  | JBool bool
  | JNum real
  | JStr string
  | JArr "json list"
  | JObj "(string \<times> json) list"

text \<open>Python truthiness of a parsed value (\<^verbatim>\<open>if not v\<close>).\<close>

fun truthy :: "json \<Rightarrow> bool" where
  "truthy JNull = False"
| "truthy (JBool b) = b"
| "truthy (JNum x) = (x \<noteq> 0)"
| "truthy (JStr s) = (s \<noteq> [])"
| "truthy (JArr xs) = (xs \<noteq> [])"
| "truthy (JObj kvs) = (kvs \<noteq> [])"

text \<open>
  \<^verbatim>\<open>d.get(key, default)\<close>: only a dict has \<^verbatim>\<open>get\<close>; on any other value the call raises
  AttributeError, which is \<open>None\<close> here.
\<close>

fun dict_get :: "json \<Rightarrow> string \<Rightarrow> json \<Rightarrow> json option" where
  "dict_get (JObj kvs) key dflt = (case map_of kvs key of None \<Rightarrow> Some dflt | Some v \<Rightarrow> Some v)"
| "dict_get _ key dflt = None"

text \<open>\<^verbatim>\<open>v.strip()\<close> on a parsed value: only a string has it.\<close>

fun json_strip :: "json \<Rightarrow> string option" where
  "json_strip (JStr s) = Some (py_strip s)"
| "json_strip _ = None"

section \<open>Signal conditioning and capture (audio_capture.py)\<close>

record audio_config =
  sample_rate :: int
  channels :: int
  block_size :: int
  dtype :: string
  mic_volume :: real
  system_volume :: real
  chunk_size :: int
  capture_duration_seconds :: real

text \<open>The defaults of the dataclass \<^verbatim>\<open>AudioConfig\<close>.\<close>

definition default_audio_config :: audio_config where
  "default_audio_config =
     \<lparr> sample_rate = 24000, channels = 1, block_size = 1024, dtype = ''float32'',
       mic_volume = 0.8, system_volume = 0.8, chunk_size = 1024,
       capture_duration_seconds = 0.5 \<rparr>"

text \<open>
  What \<^verbatim>\<open>device.record\<close> does in one call: it raises (also when the device is \<^verbatim>\<open>None\<close>), or
  it returns \<^verbatim>\<open>None\<close> or an array, given here as its mono channel.
\<close>

datatype device_result = Raises | Returns "samples option"

definition record_device_to_memory :: "device_result \<Rightarrow> samples \<times> bool" where
  "record_device_to_memory r =
     (case r of
        Raises \<Rightarrow> ([], False)
      | Returns None \<Rightarrow> ([], False)
      | Returns (Some data) \<Rightarrow> (if length data > 0 then (data, True) else ([], False)))"

text \<open>\<^verbatim>\<open>np.sqrt(np.mean(audio_data**2))\<close>.\<close>

definition rms :: "samples \<Rightarrow> real" where
  "rms xs = sqrt (sum_list (map (\<lambda>x. x\<^sup>2) xs) / real (length xs))"

definition normalize_audio_level :: "samples \<Rightarrow> real \<Rightarrow> samples" where
  "normalize_audio_level audio_data target_rms =
     (if length audio_data = 0 then audio_data
      else
        let r = rms audio_data in
        if r > 0 then
          let normalization_factor = target_rms / r;
              normalization_factor =
                (if normalization_factor > 2.0 then 2.0 + (normalization_factor - 2.0) * 0.3
                 else normalization_factor);
              normalized_audio = map (\<lambda>x. x * normalization_factor) audio_data
          in map (\<lambda>x. tanh (x * 0.9) * 0.8) normalized_audio
        else audio_data)"

text \<open>
  \<^verbatim>\<open>np.linspace(start, stop, num)\<close>: \<open>num\<close> evenly spaced values from \<open>start\<close> to \<open>stop\<close>,
  both included; a single value is \<open>start\<close>.
\<close>

definition linspace :: "real \<Rightarrow> real \<Rightarrow> nat \<Rightarrow> real list" where
  "linspace start stop num =
     (if num = 1 then [start]
      else map (\<lambda>i. start + real i * ((stop - start) / real (num - 1))) [0..<num])"

text \<open>
  The fade length \<^verbatim>\<open>apply_crossfade\<close> settles on for a non-empty buffer: the samples in
  \<^verbatim>\<open>fade_duration_ms\<close>, or a quarter of the buffer when the buffer is not longer than twice
  that.
\<close>

definition fade_samples :: "samples \<Rightarrow> int \<Rightarrow> real \<Rightarrow> int" where
  "fade_samples audio rate fade_duration_ms =
     (let fs = py_int (fade_duration_ms * real_of_int rate / 1000)
      in if int (length audio) \<le> 2 * fs then int (length audio) div 4 else fs)"

text \<open>
  \<^verbatim>\<open>apply_crossfade\<close>. The two in-place products \<^verbatim>\<open>faded_audio[:n] *= fade_in\<close> and
  \<^verbatim>\<open>faded_audio[-n:] *= fade_out\<close> are applied one after the other; \<open>n\<close> never exceeds the
  length of the buffer, so both slices have \<open>n\<close> elements.
\<close>

definition apply_crossfade :: "samples \<Rightarrow> int \<Rightarrow> real \<Rightarrow> samples" where
  "apply_crossfade audio rate fade_duration_ms =
     (if length audio = 0 then audio
      else
        let fs = fade_samples audio rate fade_duration_ms in
        if fs \<le> 0 then audio
        else
          let n = nat fs;
              fade_in = linspace 0 1 n;
              faded1 = map2 (*) (take n audio) fade_in @ drop n audio;
              fade_out = linspace 1 0 n;
              k = length faded1 - n
          in take k faded1 @ map2 (*) (drop k faded1) fade_out)"

text \<open>\<^verbatim>\<open>np.max(np.abs(a))\<close> of a non-empty array.\<close>

definition peak_of :: "samples \<Rightarrow> real" where
  "peak_of xs = Max (set (map abs xs))"

text \<open>
  The part of \<^verbatim>\<open>mix_audio_streams\<close> for two non-empty streams up to the compression: pad the
  shorter stream with zeros, add the weighted streams, apply \<^verbatim>\<open>tanh(x * 0.8) * 0.85\<close>.
\<close>

definition soft_mix :: "samples \<Rightarrow> samples \<Rightarrow> real \<Rightarrow> real \<Rightarrow> samples" where
  "soft_mix mic_audio system_audio mic_ratio system_ratio =
     (let max_length = max (length mic_audio) (length system_audio);
          mic_audio = (if length mic_audio < max_length
                       then mic_audio @ replicate (max_length - length mic_audio) 0
                       else mic_audio);
          system_audio = (if length system_audio < max_length
                          then system_audio @ replicate (max_length - length system_audio) 0
                          else system_audio);
          mixed_audio = map2 (\<lambda>m s. m * mic_ratio + s * system_ratio) mic_audio system_audio
      in map (\<lambda>x. tanh (x * 0.8) * 0.85) mixed_audio)"

definition mix_audio_streams :: "samples \<Rightarrow> samples \<Rightarrow> real \<Rightarrow> real \<Rightarrow> samples" where
  "mix_audio_streams mic_audio system_audio mic_ratio system_ratio =
     (if length mic_audio = 0 \<and> length system_audio = 0 then []
      else if length mic_audio = 0 then map (\<lambda>x. x * system_ratio) system_audio
      else if length system_audio = 0 then map (\<lambda>x. x * mic_ratio) mic_audio
      else
        let mixed_audio = soft_mix mic_audio system_audio mic_ratio system_ratio;
            peak = peak_of mixed_audio
        in if peak > 0.95 then map (\<lambda>x. x * (0.95 / peak)) mixed_audio else mixed_audio)"

text \<open>
  \<^verbatim>\<open>_record_and_mix_chunk\<close>, given what the two \<^verbatim>\<open>device.record\<close> calls of the cycle did.
  \<open>None\<close> is the return value \<^verbatim>\<open>None\<close>.
\<close>

definition record_and_mix_chunk :: "audio_config \<Rightarrow> device_result \<Rightarrow> device_result \<Rightarrow> samples option" where
  "record_and_mix_chunk cfg mic_rec system_rec =
     (let (mic_audio, mic_success) = record_device_to_memory mic_rec;
          (system_audio, system_success) = record_device_to_memory system_rec
      in if \<not> mic_success \<and> \<not> system_success then None
         else
           let mic_audio = (if mic_success \<and> length mic_audio > 0
                            then apply_crossfade mic_audio (sample_rate cfg) 10.0 else mic_audio);
               system_audio = (if system_success \<and> length system_audio > 0
                               then apply_crossfade system_audio (sample_rate cfg) 10.0
                               else system_audio);
               mixed_audio = mix_audio_streams
                               (if mic_success then mic_audio else [])
                               (if system_success then system_audio else [])
                               (mic_volume cfg) (system_volume cfg)
           in if length mixed_audio > 0
              then Some (apply_crossfade mixed_audio (sample_rate cfg) 5.0)
              else None)"

text \<open>
  \<^verbatim>\<open>(mixed_audio * 32767).astype(np.int16).tobytes()\<close>: each sample is truncated towards zero
  and stored as two bytes, low byte first. A product outside the 16-bit range wraps here
  (numpy leaves that cast to the platform); no statement below depends on it.
\<close>

definition int16_bytes :: "real \<Rightarrow> byte list" where
  "int16_bytes x =
     (let w = (word_of_int (py_int (x * 32767)) :: 16 word)
      in [ucast w, ucast (drop_bit 8 w)])"

definition pcm16_bytes :: "samples \<Rightarrow> byte list" where
  "pcm16_bytes xs = concat (map int16_bytes xs)"

text \<open>
  The fields of \<^verbatim>\<open>AudioCapture\<close> the dispatcher works on. \<open>forwarded\<close> lists the frames
  passed to \<^verbatim>\<open>self._transcriber._process_audio_bytes\<close>, in order; an exception of that call
  is swallowed by the dispatcher and changes nothing here.
\<close>

record audio_capture =
  config :: audio_config
  has_transcriber :: bool
  capture_running :: bool
  mixed_buffer :: "byte list"
  forwarded :: "byte list list"

definition init_audio_capture :: "audio_config \<Rightarrow> bool \<Rightarrow> audio_capture" where
  "init_audio_capture cfg tr =
     \<lparr> config = cfg, has_transcriber = tr, capture_running = False, mixed_buffer = [],
       forwarded = [] \<rparr>"

text \<open>
  The \<^verbatim>\<open>while\<close> loop of \<^verbatim>\<open>_send_mixed_audio_data\<close>. With a frame size that is not positive
  the loop of the source never ends; the value is \<open>None\<close> then.
\<close>

partial_function (option) dispatch_frames :: "audio_capture \<Rightarrow> audio_capture option" where
  "dispatch_frames st =
     (if chunk_size (config st) \<le> int (length (mixed_buffer st)) then
        dispatch_frames
          (let chunk = slice_to (mixed_buffer st) (chunk_size (config st));
               st1 = st\<lparr> mixed_buffer := slice_from (mixed_buffer st) (chunk_size (config st)) \<rparr>
           in if has_transcriber st1 then st1\<lparr> forwarded := forwarded st1 @ [chunk] \<rparr> else st1)
      else Some st)"

text \<open>
  \<^verbatim>\<open>_send_mixed_audio_data\<close>; \<open>acquired\<close> is the result of
  \<^verbatim>\<open>self._mixed_buffer_lock.acquire(timeout=0.1)\<close>. Without the lock the bytes are dropped.
\<close>

definition send_mixed_audio_data :: "bool \<Rightarrow> byte list \<Rightarrow> audio_capture \<Rightarrow> audio_capture option" where
  "send_mixed_audio_data acquired audio_bytes st =
     (if acquired then dispatch_frames (st\<lparr> mixed_buffer := mixed_buffer st @ audio_bytes \<rparr>)
      else Some st)"

text \<open>A sequence of \<^verbatim>\<open>_send_mixed_audio_data\<close> calls, each with its lock result and bytes.\<close>

fun send_all :: "audio_capture \<Rightarrow> (bool \<times> byte list) list \<Rightarrow> audio_capture option" where
  "send_all st [] = Some st"
| "send_all st ((acquired, audio_bytes) # rest) =
     (case send_mixed_audio_data acquired audio_bytes st of
        None \<Rightarrow> None
      | Some st' \<Rightarrow> send_all st' rest)"

text \<open>
  The bytes one iteration of \<^verbatim>\<open>_continuous_capture\<close> passes to \<^verbatim>\<open>_send_mixed_audio_data\<close>;
  \<open>None\<close> when the iteration does not call it.
\<close>

definition cycle_bytes :: "audio_config \<Rightarrow> device_result \<Rightarrow> device_result \<Rightarrow> byte list option" where
  "cycle_bytes cfg mic_rec system_rec =
     (case record_and_mix_chunk cfg mic_rec system_rec of
        None \<Rightarrow> None
      | Some mixed_audio \<Rightarrow>
          if length mixed_audio > 0 then Some (pcm16_bytes mixed_audio) else None)"

text \<open>One iteration of the loop of \<^verbatim>\<open>_continuous_capture\<close>.\<close>

definition capture_cycle ::
  "device_result \<Rightarrow> device_result \<Rightarrow> bool \<Rightarrow> audio_capture \<Rightarrow> audio_capture option" where
  "capture_cycle mic_rec system_rec acquired st =
     (case cycle_bytes (config st) mic_rec system_rec of
        None \<Rightarrow> Some st
      | Some mixed_bytes \<Rightarrow> send_mixed_audio_data acquired mixed_bytes st)"

section \<open>The transcriber (transcribe.py)\<close>

definition SAMPLERATE :: int where
  "SAMPLERATE = 24000"

definition MAX_CHUNKS :: nat where
  "MAX_CHUNKS = 1000"

text \<open>The messages the transcriber passes to \<^verbatim>\<open>websocket.send\<close>.\<close>

datatype message =
    Append "byte list"
  | Commit
  | Clear
  | SessionUpdate

text \<open>
  The fields of \<^verbatim>\<open>RealtimeTranscriber\<close>. \<open>websocket\<close> says whether \<^verbatim>\<open>self._websocket\<close> is
  set; \<open>thread_started\<close> whether \<^verbatim>\<open>start\<close> has launched the event-loop thread, which makes
  the realtime connection; \<open>JNull\<close> in \<open>session_data\<close> and \<open>client_secret\<close> is Python's
  \<^verbatim>\<open>None\<close>. \<open>callback\<close> is the observer given at construction: applied to a
  text it says whether the call returns (\<open>False\<close>: it raises). Two logs make the effects
  visible: \<open>outbox\<close> lists the messages handed to \<^verbatim>\<open>websocket.send\<close>, in order, and
  \<open>callback_calls\<close> the texts the callback was invoked with.
\<close>

record transcriber =
  full_transcript :: string
  chunks :: "(string \<times> real) list"
  running :: bool
  websocket :: bool
  thread_started :: bool
  session_data :: json
  client_secret :: json
  processing_start_time :: "real option"
  callback :: "(string \<Rightarrow> bool) option"
  outbox :: "message list"
  callback_calls :: "string list"

definition init_transcriber :: "(string \<Rightarrow> bool) option \<Rightarrow> transcriber" where
  "init_transcriber cb =
     \<lparr> full_transcript = [], chunks = [], running = False, websocket = False,
       thread_started = False, session_data = JNull, client_secret = JNull,
       processing_start_time = None, callback = cb, outbox = [], callback_calls = [] \<rparr>"

text \<open>
  \<^verbatim>\<open>_update_transcript\<close>, called at clock reading \<open>now\<close>. \<open>Inr\<close> is a normal return, \<open>Inl\<close> an
  exception escaping from the callback; both carry the state left behind.
\<close>

definition update_transcript :: "real \<Rightarrow> string \<Rightarrow> transcriber \<Rightarrow> transcriber + transcriber" where
  "update_transcript now new_text s =
     (if new_text = [] \<or> py_isspace new_text then Inr s
      else
        let s1 = s\<lparr> chunks := deque_append MAX_CHUNKS (chunks s) (new_text, now) \<rparr>;
            s2 = s1\<lparr> full_transcript :=
                        (if full_transcript s1 \<noteq> [] then full_transcript s1 @ '' '' @ new_text
                         else new_text) \<rparr>
        in case callback s2 of
             None \<Rightarrow> Inr s2
           | Some cb \<Rightarrow>
               let s3 = s2\<lparr> callback_calls := callback_calls s2 @ [new_text] \<rparr>
               in if cb new_text then Inr s3 else Inl s3)"

text \<open>The state an operation leaves behind, whether it returned or raised.\<close>

fun state_after :: "'s + 's \<Rightarrow> 's" where
  "state_after (Inl s) = s"
| "state_after (Inr s) = s"

definition get_full_transcript :: "transcriber \<Rightarrow> string" where
  "get_full_transcript s = full_transcript s"

definition get_chunks :: "transcriber \<Rightarrow> (string \<times> real) list" where
  "get_chunks s = chunks s"

text \<open>\<^verbatim>\<open>get_recent_chunks(seconds)\<close>, read at clock reading \<open>now\<close>.\<close>

definition get_recent_chunks :: "real \<Rightarrow> real \<Rightarrow> transcriber \<Rightarrow> (string \<times> real) list" where
  "get_recent_chunks now seconds s = filter (\<lambda>(text, ts). now - seconds \<le> ts) (chunks s)"

text \<open>A sequence of \<^verbatim>\<open>_update_transcript\<close> calls, each with its text and clock reading.\<close>

fun update_all :: "transcriber \<Rightarrow> (string \<times> real) list \<Rightarrow> transcriber" where
  "update_all s [] = s"
| "update_all s ((text, now) # rest) = update_all (state_after (update_transcript now text s)) rest"

text \<open>
  The vocabulary of the store's specification: the texts \<^verbatim>\<open>_update_transcript\<close> does not
  skip, and \<^verbatim>\<open>" ".join(texts)\<close>.
\<close>

definition stored :: "string \<times> real \<Rightarrow> bool" where
  "stored c = (fst c \<noteq> [] \<and> \<not> py_isspace (fst c))"

fun join_space :: "string list \<Rightarrow> string" where
  "join_space [] = []"
| "join_space [t] = t"
| "join_space (t # u # ts) = t @ '' '' @ join_space (u # ts)"

text \<open>
  The invariant of the store under \<^verbatim>\<open>_update_transcript\<close>, relative to the list \<open>h\<close> of all
  chunks stored so far.
\<close>

definition store_inv :: "(string \<times> real) list \<Rightarrow> transcriber \<Rightarrow> bool" where
  "store_inv h s =
     (list_all stored h \<and> full_transcript s = join_space (map fst h) \<and>
      chunks s = drop (length h - MAX_CHUNKS) h)"

text \<open>The configuration \<^verbatim>\<open>RealtimeTranscriber.__init__\<close> builds its \<^verbatim>\<open>AudioCapture\<close> with.\<close>

definition transcriber_audio_config :: audio_config where
  "transcriber_audio_config =
     \<lparr> sample_rate = SAMPLERATE, channels = 1, block_size = 512, dtype = ''float32'',
       mic_volume = 1.0, system_volume = 1.0, chunk_size = 1024,
       capture_duration_seconds = 0.5 \<rparr>"

text \<open>
  \<^verbatim>\<open>_send_message\<close>: with a connection the message goes to \<^verbatim>\<open>websocket.send\<close>, whose
  exceptions are suppressed; without one nothing happens.
\<close>

definition send_message :: "message \<Rightarrow> transcriber \<Rightarrow> transcriber" where
  "send_message msg s = (if websocket s then s\<lparr> outbox := outbox s @ [msg] \<rparr> else s)"

text \<open>
  \<^verbatim>\<open>_handle_message\<close> at clock reading \<open>now\<close>. The message is the result of \<^verbatim>\<open>json.loads\<close>,
  \<open>None\<close> when parsing raises. Every exception inside the handler is swallowed by its
  \<^verbatim>\<open>except\<close> clause: the handler returns with the state reached so far. The branches that
  only print leave the state as it is.
\<close>

definition handle_message :: "real \<Rightarrow> json option \<Rightarrow> transcriber \<Rightarrow> transcriber" where
  "handle_message now message s =
     (case message of
        None \<Rightarrow> s
      | Some data \<Rightarrow>
          (case dict_get data ''type'' (JStr []) of
             None \<Rightarrow> s
           | Some event_type \<Rightarrow>
               if event_type = JStr ''input_audio_buffer.speech_stopped'' then
                 send_message Commit s
               else if event_type = JStr ''input_audio_buffer.committed'' then
                 s\<lparr> processing_start_time := Some now \<rparr>
               else if event_type = JStr ''conversation.item.input_audio_transcription.completed'' then
                 (case Option.bind (dict_get data ''transcript'' (JStr [])) json_strip of
                    None \<Rightarrow> s
                  | Some transcript \<Rightarrow>
                      if transcript \<noteq> [] then
                        (case update_transcript now transcript s of
                           Inl s' \<Rightarrow> s'
                         | Inr s' \<Rightarrow> s'\<lparr> processing_start_time := None \<rparr>)
                      else s\<lparr> processing_start_time := None \<rparr>)
               else if event_type = JStr ''conversation.item.input_audio_transcription.delta'' then s
               else if event_type = JStr ''conversation.item.input_audio_transcription.failed'' then
                 s\<lparr> processing_start_time := None \<rparr>
               else s))"

text \<open>
  The loop \<^verbatim>\<open>async for message in websocket: await self._handle_message(message)\<close>:
  the inbound messages, each with the clock reading at which it is handled, one after
  the other.
\<close>

fun handle_all :: "transcriber \<Rightarrow> (real \<times> json option) list \<Rightarrow> transcriber" where
  "handle_all s [] = s"
| "handle_all s ((now, message) # rest) = handle_all (handle_message now message s) rest"

text \<open>
  The test of the watchdog: \<^verbatim>\<open>self._processing_start_time and time.time() -
  self._processing_start_time > 5.0\<close>. A marker of 0.0 is falsy in Python.
\<close>

definition processing_timed_out :: "real \<Rightarrow> transcriber \<Rightarrow> bool" where
  "processing_timed_out now s =
     (case processing_start_time s of
        None \<Rightarrow> False
      | Some started \<Rightarrow> started \<noteq> 0 \<and> now - started > 5.0)"

text \<open>
  One iteration of the loop of \<^verbatim>\<open>_check_processing_timeout\<close> at clock reading \<open>now\<close>. The
  second component is the sleep the iteration ends with (\<^verbatim>\<open>await asyncio.sleep(1)\<close>), or
  \<open>None\<close> when the loop ends because the transcriber is no longer running.
\<close>

definition check_processing_timeout_step :: "real \<Rightarrow> transcriber \<Rightarrow> transcriber \<times> real option" where
  "check_processing_timeout_step now s =
     (if running s then
        ((if processing_timed_out now s
          then send_message Clear (s\<lparr> processing_start_time := None \<rparr>)
          else s),
         Some 1)
      else (s, None))"

text \<open>
  What the POST of \<^verbatim>\<open>_create_transcription_session\<close> comes back with: an exception of
  \<^verbatim>\<open>requests.post\<close>, or a response with its status code and its body as \<^verbatim>\<open>response.json()\<close>
  reads it (\<open>None\<close> when that raises).
\<close>

datatype http_result = NetworkError | Response nat "json option"

text \<open>
  \<^verbatim>\<open>response.raise_for_status()\<close> of the requests library, which is not part of this
  repository: it raises \<^verbatim>\<open>HTTPError\<close> for the client and server error codes, 400 to 599,
  and returns for every other status code.
\<close>

definition raise_for_status :: "nat \<Rightarrow> bool" where
  "raise_for_status status = (400 \<le> status \<and> status < 600)"

text \<open>
  \<^verbatim>\<open>self._session_data.get("client_secret", {}).get("value")\<close>; \<open>None\<close> when one of the two
  \<^verbatim>\<open>get\<close> calls raises because its receiver is not a dict. A missing \<^verbatim>\<open>value\<close> gives \<^verbatim>\<open>None\<close>,
  which is \<open>JNull\<close>.
\<close>

definition extract_client_secret :: "json \<Rightarrow> json option" where
  "extract_client_secret data =
     Option.bind (dict_get data ''client_secret'' (JObj [])) (\<lambda>cs. dict_get cs ''value'' JNull)"

text \<open>\<^verbatim>\<open>_create_transcription_session\<close>: the returned flag and the state left behind.\<close>

definition create_transcription_session :: "http_result \<Rightarrow> transcriber \<Rightarrow> bool \<times> transcriber" where
  "create_transcription_session http s =
     (case http of
        NetworkError \<Rightarrow> (False, s)
      | Response status body \<Rightarrow>
          if raise_for_status status then (False, s)
          else
            (case body of
               None \<Rightarrow> (False, s)
             | Some data \<Rightarrow>
                 let s1 = s\<lparr> session_data := data \<rparr> in
                 (case extract_client_secret data of
                    None \<Rightarrow> (False, s1)
                  | Some v \<Rightarrow>
                      let s2 = s1\<lparr> client_secret := v \<rparr>
                      in if \<not> truthy v then (False, s2) else (True, s2))))"

text \<open>
  \<^verbatim>\<open>start\<close>; \<open>http\<close> is what the POST comes back with if \<^verbatim>\<open>start\<close> makes it. Starting the
  thread is what begins the realtime connection (\<^verbatim>\<open>_run_event_loop\<close>, \<^verbatim>\<open>_websocket_handler\<close>).
\<close>

definition start :: "http_result \<Rightarrow> transcriber \<Rightarrow> transcriber" where
  "start http s =
     (if \<not> running s then
        (case create_transcription_session http s of
           (False, s') \<Rightarrow> s'
         | (True, s') \<Rightarrow> s'\<lparr> running := True, thread_started := True \<rparr>)
      else s)"

text \<open>
  The marker, when set, holds a positive clock reading: \<^verbatim>\<open>time.time()\<close> counts the seconds
  since 1970. This holds initially and is kept by the handler and by the watchdog.
\<close>

definition marker_positive :: "transcriber \<Rightarrow> bool" where
  "marker_positive s = (case processing_start_time s of None \<Rightarrow> True | Some started \<Rightarrow> 0 < started)"

section \<open>Sample inputs\<close>

text \<open>Inbound events of the realtime protocol, as \<^verbatim>\<open>json.loads\<close> returns them.\<close>

definition speech_stopped_event :: json where
  "speech_stopped_event = JObj [(''type'', JStr ''input_audio_buffer.speech_stopped'')]"

definition committed_event :: json where
  "committed_event = JObj [(''type'', JStr ''input_audio_buffer.committed'')]"

definition failed_event :: json where
  "failed_event = JObj [(''type'', JStr ''conversation.item.input_audio_transcription.failed''),
                        (''error'', JObj [])]"

definition completed_event :: "string \<Rightarrow> json" where
  "completed_event t = JObj [(''type'', JStr ''conversation.item.input_audio_transcription.completed''),
                             (''transcript'', JStr t)]"

text \<open>A session-creation response body carrying \<open>v\<close> as its nested credential.\<close>

definition session_body :: "json \<Rightarrow> json" where
  "session_body v = JObj [(''id'', JStr ''sess_1''), (''client_secret'', JObj [(''value'', v)])]"

section \<open>The transcript store\<close>

lemma join_space_snoc:
  "t \<noteq> [] \<Longrightarrow> join_space (ts @ [t]) = (if ts = [] then t else join_space ts @ '' '' @ t)"
  by (induction ts rule: join_space.induct) auto

lemma join_space_empty_iff:
  "\<forall>t \<in> set ts. t \<noteq> [] \<Longrightarrow> join_space ts = [] \<longleftrightarrow> ts = []"
  by (induction ts rule: join_space.induct) auto

lemma deque_append_window:
  "deque_append n (drop (length xs - n) xs) x = drop (length (xs @ [x]) - n) (xs @ [x])"
  by (cases "length xs \<le> n") (simp_all add: deque_append_def Let_def Suc_diff_le)

lemma store_inv_init: "store_inv [] (init_transcriber cb)"
  by (simp add: store_inv_def init_transcriber_def)

lemma store_inv_step:
  assumes "store_inv h s"
  shows "store_inv (if stored (text, now) then h @ [(text, now)] else h)
           (state_after (update_transcript now text s))"
proof (cases "stored (text, now)")
  case False
  then show ?thesis
    using assms by (auto simp: stored_def update_transcript_def)
next
  case True
  then have ne: "text \<noteq> []" and nsp: "\<not> py_isspace text"
    by (simp_all add: stored_def)
  have all: "\<forall>t \<in> set (map fst h). t \<noteq> []"
    using assms by (auto simp: store_inv_def list_all_iff stored_def)
  have ft: "full_transcript s = join_space (map fst h)"
    and ch: "chunks s = drop (length h - MAX_CHUNKS) h"
    using assms by (simp_all add: store_inv_def)
  have empty: "full_transcript s = [] \<longleftrightarrow> h = []"
    using join_space_empty_iff [OF all] ft by simp
  let ?s' = "state_after (update_transcript now text s)"
  have ft': "full_transcript ?s' = join_space (map fst (h @ [(text, now)]))"
    using ne nsp ft empty
    by (auto simp: update_transcript_def Let_def join_space_snoc split: option.splits)
  have ch': "chunks ?s' = drop (length (h @ [(text, now)]) - MAX_CHUNKS) (h @ [(text, now)])"
    using ne nsp ch deque_append_window [of MAX_CHUNKS h "(text, now)"]
    by (auto simp: update_transcript_def Let_def split: option.splits)
  have "list_all stored (h @ [(text, now)])"
    using assms True by (simp add: store_inv_def)
  with ft' ch' True show ?thesis
    by (simp add: store_inv_def)
qed

lemma store_inv_update_all:
  "store_inv h s \<Longrightarrow> store_inv (h @ filter stored cs) (update_all s cs)"
proof (induction cs arbitrary: h s)
  case Nil
  then show ?case by simp
next
  case (Cons c cs)
  obtain t now where c: "c = (t, now)" by (cases c)
  have "store_inv (if stored c then h @ [c] else h) (state_after (update_transcript now t s))"
    unfolding c by (rule store_inv_step [OF Cons.prems])
  from Cons.IH [OF this] show ?case
    by (cases "stored (t, now)") (simp_all add: c)
qed

lemma length_join_space_replicate:
  "length (join_space (replicate (Suc n) ''a'')) = 2 * n + 1"
  by (induction n) simp_all

lemma stored_a: "stored (''a'', t)"
  by (simp add: stored_def py_isspace_def py_isspace_char_def)

lemma stored_b: "stored (''b'', t)"
  by (simp add: stored_def py_isspace_def py_isspace_char_def)

lemma store_after_replicate:
  "store_inv (replicate n (''a'', 0)) (update_all (init_transcriber None) (replicate n (''a'', 0)))"
  using store_inv_update_all [OF store_inv_init, where cs = "replicate n (''a'', 0)"]
  by (simp add: stored_a)

lemma update_transcript_stored:
  assumes "stored (t, now)"
  shows "chunks (state_after (update_transcript now t s)) = deque_append MAX_CHUNKS (chunks s) (t, now)"
    and "full_transcript (state_after (update_transcript now t s)) =
           (if full_transcript s \<noteq> [] then full_transcript s @ '' '' @ t else t)"
  using assms by (auto simp: update_transcript_def stored_def Let_def split: option.splits)

text \<open>
  C1 (amended). From the initial state, after any sequence of \<^verbatim>\<open>_update_transcript\<close>
  calls, \<^verbatim>\<open>get_full_transcript\<close> is the space-separated concatenation of all chunks stored
  so far (every text that is neither empty nor whitespace), evicted ones included, while
  \<^verbatim>\<open>get_chunks\<close> holds the last \<open>MAX_CHUNKS = 1000\<close> of them. The full text is the
  concatenation of the chunks still held as long as at most 1000 chunks were stored. A
  further call on a full ring evicts the oldest chunk and only appends to the full text:
  nothing is removed from it.
\<close>

theorem full_transcript_keeps_evicted_chunks:
  "get_full_transcript (update_all (init_transcriber cb) cs) = join_space (map fst (filter stored cs)) \<and>
   get_chunks (update_all (init_transcriber cb) cs) =
     drop (length (filter stored cs) - MAX_CHUNKS) (filter stored cs) \<and>
   (length (filter stored cs) \<le> MAX_CHUNKS \<longrightarrow>
      get_full_transcript (update_all (init_transcriber cb) cs) =
        join_space (map fst (get_chunks (update_all (init_transcriber cb) cs)))) \<and>
   (stored (t, now) \<and> length (get_chunks (update_all (init_transcriber cb) cs)) = MAX_CHUNKS \<longrightarrow>
      get_chunks (state_after (update_transcript now t (update_all (init_transcriber cb) cs))) =
        tl (get_chunks (update_all (init_transcriber cb) cs)) @ [(t, now)] \<and>
      get_full_transcript (state_after (update_transcript now t (update_all (init_transcriber cb) cs))) =
        get_full_transcript (update_all (init_transcriber cb) cs) @ '' '' @ t)"
proof -
  let ?s = "update_all (init_transcriber cb) cs"
  let ?kept = "filter stored cs"
  have inv: "store_inv ?kept ?s"
    using store_inv_update_all [OF store_inv_init, where cs = cs] by simp
  then have ft: "get_full_transcript ?s = join_space (map fst ?kept)"
    and ch: "get_chunks ?s = drop (length ?kept - MAX_CHUNKS) ?kept"
    by (simp_all add: store_inv_def get_full_transcript_def get_chunks_def)
  have small: "get_full_transcript ?s = join_space (map fst (get_chunks ?s))"
    if "length ?kept \<le> MAX_CHUNKS"
    using that ft ch by simp
  have evict: "get_chunks (state_after (update_transcript now t ?s)) = tl (get_chunks ?s) @ [(t, now)] \<and>
      get_full_transcript (state_after (update_transcript now t ?s)) = get_full_transcript ?s @ '' '' @ t"
    if st: "stored (t, now)" and full: "length (get_chunks ?s) = MAX_CHUNKS"
  proof -
    have "get_chunks ?s \<noteq> []"
      using full by (auto simp: MAX_CHUNKS_def)
    then have "?kept \<noteq> []"
      using ch by auto
    then have "map fst ?kept \<noteq> []" and "\<forall>x \<in> set (map fst ?kept). x \<noteq> []"
      by (auto simp: stored_def)
    then have "get_full_transcript ?s \<noteq> []"
      using ft join_space_empty_iff [of "map fst ?kept"] by simp
    moreover have "deque_append MAX_CHUNKS (chunks ?s) (t, now) = tl (chunks ?s) @ [(t, now)]"
      using full \<open>get_chunks ?s \<noteq> []\<close>
      by (cases "chunks ?s") (simp_all add: deque_append_def get_chunks_def Let_def)
    ultimately show ?thesis
      using update_transcript_stored [OF st, where s = ?s]
      by (simp add: get_chunks_def get_full_transcript_def)
  qed
  from ft ch small evict show ?thesis
    by blast
qed

theorem full_transcript_keeps_evicted_chunks_witness:
  "length (filter stored (replicate 1000 (''a'', 0))) \<le> MAX_CHUNKS \<and>
   stored (''b'', 1) \<and>
   length (get_chunks (update_all (init_transcriber None) (replicate 1000 (''a'', 0)))) = MAX_CHUNKS \<and>
   get_full_transcript (update_all (init_transcriber None) (replicate 1000 (''a'', 0))) =
     join_space (map fst (get_chunks (update_all (init_transcriber None) (replicate 1000 (''a'', 0))))) \<and>
   get_chunks (state_after (update_transcript 1 ''b''
       (update_all (init_transcriber None) (replicate 1000 (''a'', 0))))) =
     tl (get_chunks (update_all (init_transcriber None) (replicate 1000 (''a'', 0)))) @ [(''b'', 1)] \<and>
   get_full_transcript (state_after (update_transcript 1 ''b''
       (update_all (init_transcriber None) (replicate 1000 (''a'', 0))))) =
     get_full_transcript (update_all (init_transcriber None) (replicate 1000 (''a'', 0))) @ '' b''"
proof -
  have h1: "length (filter stored (replicate 1000 (''a'', 0::real))) \<le> MAX_CHUNKS"
    by (simp add: stored_a MAX_CHUNKS_def)
  have h2: "stored (''b'', 1)"
    by (rule stored_b)
  have h3: "length (get_chunks (update_all (init_transcriber None) (replicate 1000 (''a'', 0)))) = MAX_CHUNKS"
    using store_after_replicate [of 1000]
    by (simp add: store_inv_def get_chunks_def MAX_CHUNKS_def)
  show ?thesis
    using full_transcript_keeps_evicted_chunks [where cb = None and cs = "replicate 1000 (''a'', 0)" and t = "''b''" and now = 1] h1 h2 h3
    by simp
qed

text \<open>
  The claim as written fails once a chunk has been evicted: after 1001 stored chunks the
  full text still contains the first one, which the ring no longer holds.
\<close>

theorem full_transcript_not_held_chunks_counterexample:
  "get_full_transcript (update_all (init_transcriber None) (replicate 1001 (''a'', 0))) \<noteq>
   join_space (map fst (get_chunks (update_all (init_transcriber None) (replicate 1001 (''a'', 0)))))"
proof -
  let ?s = "update_all (init_transcriber None) (replicate 1001 (''a'', 0))"
  have inv: "store_inv (replicate 1001 (''a'', 0)) ?s"
    by (rule store_after_replicate)
  have "length (get_full_transcript ?s) = 2001"
    using inv length_join_space_replicate [of 1000]
    by (simp add: store_inv_def get_full_transcript_def)
  moreover have "get_chunks ?s = replicate 1000 (''a'', 0)"
    using inv by (simp add: store_inv_def get_chunks_def MAX_CHUNKS_def)
  then have "length (join_space (map fst (get_chunks ?s))) = 1999"
    using length_join_space_replicate [of 999] by simp
  ultimately show ?thesis
    by auto
qed

section \<open>The chunk dispatcher\<close>

lemma dispatch_frames_total:
  assumes "0 < chunk_size (config st)"
  shows "\<exists>st' frames. dispatch_frames st = Some st' \<and> config st' = config st \<and>
           has_transcriber st' = has_transcriber st \<and>
           capture_running st' = capture_running st \<and>
           int (length (mixed_buffer st')) < chunk_size (config st) \<and>
           forwarded st' = forwarded st @ frames \<and>
           list_all (\<lambda>f. int (length f) = chunk_size (config st)) frames \<and>
           (has_transcriber st \<longrightarrow> concat frames @ mixed_buffer st' = mixed_buffer st)"
  using assms
proof (induction "length (mixed_buffer st)" arbitrary: st rule: less_induct)
  case less
  let ?F = "chunk_size (config st)"
  show ?case
  proof (cases "?F \<le> int (length (mixed_buffer st))")
    case False
    then have "dispatch_frames st = Some st"
      by (subst dispatch_frames.simps) simp
    with False show ?thesis
      by (intro exI [of _ st] exI [of _ "[]"]) simp
  next
    case True
    define chunk where "chunk = slice_to (mixed_buffer st) ?F"
    define st1 where "st1 = st\<lparr> mixed_buffer := slice_from (mixed_buffer st) ?F \<rparr>"
    define st2 where "st2 = (if has_transcriber st1 then st1\<lparr> forwarded := forwarded st1 @ [chunk] \<rparr> else st1)"
    have step: "dispatch_frames st = dispatch_frames st2"
      using True by (subst dispatch_frames.simps) (simp add: st2_def st1_def chunk_def Let_def)
    have Fpos: "0 < ?F" by (rule less.prems)
    have len_chunk: "int (length chunk) = ?F"
      using True Fpos by (simp add: chunk_def slice_to_def)
    have buf2: "mixed_buffer st2 = drop (nat ?F) (mixed_buffer st)"
      using Fpos by (simp add: st2_def st1_def slice_from_def)
    have chunk_eq: "chunk = take (nat ?F) (mixed_buffer st)"
      using Fpos by (simp add: chunk_def slice_to_def)
    have cfg2: "config st2 = config st" "has_transcriber st2 = has_transcriber st"
      "capture_running st2 = capture_running st"
      by (simp_all add: st2_def st1_def)
    have fw2: "forwarded st2 = forwarded st @ (if has_transcriber st then [chunk] else [])"
      by (simp add: st2_def st1_def)
    have shorter: "length (mixed_buffer st2) < length (mixed_buffer st)"
      using True Fpos buf2 by simp
    from less.hyps [OF shorter] Fpos cfg2
    obtain st' frames where r: "dispatch_frames st2 = Some st'" "config st' = config st"
      "has_transcriber st' = has_transcriber st" "capture_running st' = capture_running st"
      "int (length (mixed_buffer st')) < ?F"
      "forwarded st' = forwarded st2 @ frames"
      "list_all (\<lambda>f. int (length f) = ?F) frames"
      "has_transcriber st \<longrightarrow> concat frames @ mixed_buffer st' = mixed_buffer st2"
      by auto
    let ?fr = "(if has_transcriber st then [chunk] else []) @ frames"
    have "forwarded st' = forwarded st @ ?fr"
      using r(6) fw2 by simp
    moreover have "list_all (\<lambda>f. int (length f) = ?F) ?fr"
      using r(7) len_chunk by simp
    moreover have "has_transcriber st \<longrightarrow> concat ?fr @ mixed_buffer st' = mixed_buffer st"
      using r(8) buf2 chunk_eq by simp
    ultimately show ?thesis
      using step r(1-5) by (intro exI [of _ st'] exI [of _ ?fr]) simp
  qed
qed


lemma send_mixed_audio_data_total:
  assumes "0 < chunk_size (config st)"
  shows "\<exists>st' frames. send_mixed_audio_data acquired bs st = Some st' \<and> config st' = config st \<and>
           has_transcriber st' = has_transcriber st \<and>
           (acquired \<longrightarrow> int (length (mixed_buffer st')) < chunk_size (config st)) \<and>
           (\<not> acquired \<longrightarrow> mixed_buffer st' = mixed_buffer st) \<and>
           forwarded st' = forwarded st @ frames \<and>
           list_all (\<lambda>f. int (length f) = chunk_size (config st)) frames \<and>
           (has_transcriber st \<longrightarrow>
              concat frames @ mixed_buffer st' = mixed_buffer st @ (if acquired then bs else []))"
proof (cases acquired)
  case False
  then show ?thesis
    by (intro exI [of _ st] exI [of _ "[]"]) (simp add: send_mixed_audio_data_def)
next
  case True
  let ?st0 = "st\<lparr> mixed_buffer := mixed_buffer st @ bs \<rparr>"
  have "0 < chunk_size (config ?st0)"
    using assms by simp
  from dispatch_frames_total [OF this] True show ?thesis
    by (auto simp: send_mixed_audio_data_def)
qed

lemma send_all_total:
  assumes "0 < chunk_size (config st)"
    and "int (length (mixed_buffer st)) < chunk_size (config st)"
  shows "\<exists>st' frames. send_all st calls = Some st' \<and> config st' = config st \<and>
           has_transcriber st' = has_transcriber st \<and>
           int (length (mixed_buffer st')) < chunk_size (config st) \<and>
           forwarded st' = forwarded st @ frames \<and>
           list_all (\<lambda>f. int (length f) = chunk_size (config st)) frames \<and>
           (has_transcriber st \<longrightarrow>
              concat frames @ mixed_buffer st' =
                mixed_buffer st @ concat (map snd (filter fst calls)))"
  using assms
proof (induction calls arbitrary: st)
  case Nil
  then show ?case
    by (intro exI [of _ st] exI [of _ "[]"]) simp
next
  case (Cons c calls)
  obtain acquired bs where c: "c = (acquired, bs)" by (cases c)
  from send_mixed_audio_data_total [OF Cons.prems(1), of acquired bs]
  obtain st1 fr1 where s1: "send_mixed_audio_data acquired bs st = Some st1"
    "config st1 = config st" "has_transcriber st1 = has_transcriber st"
    "acquired \<longrightarrow> int (length (mixed_buffer st1)) < chunk_size (config st)"
    "\<not> acquired \<longrightarrow> mixed_buffer st1 = mixed_buffer st"
    "forwarded st1 = forwarded st @ fr1"
    "list_all (\<lambda>f. int (length f) = chunk_size (config st)) fr1"
    "has_transcriber st \<longrightarrow>
       concat fr1 @ mixed_buffer st1 = mixed_buffer st @ (if acquired then bs else [])"
    by blast
  have p1: "0 < chunk_size (config st1)"
    using s1(2) Cons.prems(1) by simp
  have p2: "int (length (mixed_buffer st1)) < chunk_size (config st1)"
    using s1(2,4,5) Cons.prems(2) by (cases acquired) simp_all
  from Cons.IH [OF p1 p2]
  obtain st' fr2 where s2: "send_all st1 calls = Some st'" "config st' = config st1"
    "has_transcriber st' = has_transcriber st1"
    "int (length (mixed_buffer st')) < chunk_size (config st1)"
    "forwarded st' = forwarded st1 @ fr2"
    "list_all (\<lambda>f. int (length f) = chunk_size (config st1)) fr2"
    "has_transcriber st1 \<longrightarrow>
       concat fr2 @ mixed_buffer st' = mixed_buffer st1 @ concat (map snd (filter fst calls))"
    by blast
  have "send_all st (c # calls) = Some st'"
    using s1(1) s2(1) by (simp add: c)
  moreover have "forwarded st' = forwarded st @ (fr1 @ fr2)"
    using s1(6) s2(5) by simp
  moreover have "list_all (\<lambda>f. int (length f) = chunk_size (config st)) (fr1 @ fr2)"
    using s1(2,7) s2(6) by simp
  moreover have "has_transcriber st \<longrightarrow>
      concat (fr1 @ fr2) @ mixed_buffer st' =
        mixed_buffer st @ concat (map snd (filter fst (c # calls)))"
  proof
    assume tr: "has_transcriber st"
    then have "concat fr2 @ mixed_buffer st' = mixed_buffer st1 @ concat (map snd (filter fst calls))"
      using s2(7) s1(3) by simp
    then have "concat (fr1 @ fr2) @ mixed_buffer st' =
        (concat fr1 @ mixed_buffer st1) @ concat (map snd (filter fst calls))"
      by simp
    also have "concat fr1 @ mixed_buffer st1 = mixed_buffer st @ (if acquired then bs else [])"
      using s1(8) tr by simp
    finally show "concat (fr1 @ fr2) @ mixed_buffer st' =
        mixed_buffer st @ concat (map snd (filter fst (c # calls)))"
      by (simp add: c)
  qed
  ultimately show ?case
    using s2(2-4) s1(2,3) by (intro exI [of _ st'] exI [of _ "fr1 @ fr2"]) simp
qed

text \<open>
  C2. For every positive frame size and every sequence of \<^verbatim>\<open>_send_mixed_audio_data\<close> calls
  on a fresh \<^verbatim>\<open>AudioCapture\<close> (whatever bytes each call brings, whether or not it gets the
  lock), every call returns, every frame passed on to the transcriber has exactly the
  frame size, and the buffer is left shorter than one frame. With a transcriber attached,
  the frames followed by the buffer are the accepted bytes in order.
\<close>

theorem dispatcher_frames_exact:
  assumes "0 < chunk_size cfg"
  shows "\<exists>st. send_all (init_audio_capture cfg tr) calls = Some st \<and>
           list_all (\<lambda>f. int (length f) = chunk_size cfg) (forwarded st) \<and>
           int (length (mixed_buffer st)) < chunk_size cfg \<and>
           (tr \<longrightarrow> concat (forwarded st) @ mixed_buffer st = concat (map snd (filter fst calls)))"
proof -
  let ?st0 = "init_audio_capture cfg tr"
  have "0 < chunk_size (config ?st0)" "int (length (mixed_buffer ?st0)) < chunk_size (config ?st0)"
    using assms by (simp_all add: init_audio_capture_def)
  from send_all_total [OF this, of calls] show ?thesis
    by (auto simp: init_audio_capture_def)
qed

lemma dispatch_example:
  "send_all (init_audio_capture (default_audio_config\<lparr> chunk_size := 2 \<rparr>) True)
     [(True, [1, 2, 3]), (False, [9]), (True, [4, 5])] =
   Some ((init_audio_capture (default_audio_config\<lparr> chunk_size := 2 \<rparr>) True)
          \<lparr> mixed_buffer := [5], forwarded := [[1, 2], [3, 4]] \<rparr>)"
  by (simp add: send_mixed_audio_data_def init_audio_capture_def default_audio_config_def
      dispatch_frames.simps slice_to_def slice_from_def)

theorem dispatcher_frames_exact_witness:
  "0 < chunk_size (default_audio_config\<lparr> chunk_size := 2 \<rparr>) \<and>
   (\<exists>st. send_all (init_audio_capture (default_audio_config\<lparr> chunk_size := 2 \<rparr>) True)
            [(True, [1, 2, 3]), (False, [9]), (True, [4, 5])] = Some st \<and>
      list_all (\<lambda>f. int (length f) = 2) (forwarded st) \<and>
      int (length (mixed_buffer st)) < 2 \<and>
      concat (forwarded st) @ mixed_buffer st = [1, 2, 3, 4, 5])"
proof -
  have h: "0 < chunk_size (default_audio_config\<lparr> chunk_size := 2 \<rparr>)"
    by simp
  from dispatcher_frames_exact [OF h, where tr = True and
      calls = "[(True, [1, 2, 3]), (False, [9]), (True, [4, 5])]"]
  show ?thesis
    using h by simp
qed

section \<open>Crossfade\<close>

lemma length_linspace: "length (linspace a b n) = n"
  by (simp add: linspace_def)

lemma linspace_one: "linspace a b (Suc 0) = [a]"
  by (simp add: linspace_def)

lemma linspace_nth: "2 \<le> n \<Longrightarrow> i < n \<Longrightarrow> linspace a b n ! i = a + real i * ((b - a) / real (n - 1))"
  by (simp add: linspace_def)

lemma linspace_first: "0 < n \<Longrightarrow> linspace a b n ! 0 = a"
  by (simp add: linspace_def)

lemma linspace_last: "2 \<le> n \<Longrightarrow> linspace a b n ! (n - 1) = b"
  by (simp add: linspace_nth)

lemma fade_samples_bound:
  assumes "0 < fade_samples audio rate ms"
  shows "2 * nat (fade_samples audio rate ms) \<le> length audio"
  using assms by (auto simp: fade_samples_def Let_def split: if_splits)

lemma apply_crossfade_nth:
  assumes ne: "audio \<noteq> []" and pos: "0 < fade_samples audio rate ms"
  defines "n \<equiv> nat (fade_samples audio rate ms)"
  shows "length (apply_crossfade audio rate ms) = length audio"
    and "i < n \<Longrightarrow> apply_crossfade audio rate ms ! i = audio ! i * linspace 0 1 n ! i"
    and "n \<le> i \<Longrightarrow> i < length audio - n \<Longrightarrow> apply_crossfade audio rate ms ! i = audio ! i"
    and "i < n \<Longrightarrow> apply_crossfade audio rate ms ! (length audio - n + i) =
           audio ! (length audio - n + i) * linspace 1 0 n ! i"
proof -
  have n: "2 * n \<le> length audio"
    unfolding n_def by (rule fade_samples_bound [OF pos])
  define faded1 where "faded1 = map2 (*) (take n audio) (linspace 0 1 n) @ drop n audio"
  define k where "k = length audio - n"
  have len1: "length faded1 = length audio"
    using n by (simp add: faded1_def length_linspace)
  have "apply_crossfade audio rate ms =
      take (length faded1 - n) faded1 @ map2 (*) (drop (length faded1 - n) faded1) (linspace 1 0 n)"
    unfolding apply_crossfade_def Let_def faded1_def n_def using ne pos by simp
  then have out: "apply_crossfade audio rate ms = take k faded1 @ map2 (*) (drop k faded1) (linspace 1 0 n)"
    by (simp only: len1 k_def)
  have f1_lo: "faded1 ! j = audio ! j * linspace 0 1 n ! j" if "j < n" for j
    using that n by (simp add: faded1_def nth_append length_linspace)
  have f1_hi: "faded1 ! j = audio ! j" if "n \<le> j" "j < length audio" for j
    using that n by (simp add: faded1_def nth_append length_linspace)
  have nk: "n \<le> k" using n by (simp add: k_def)
  show "length (apply_crossfade audio rate ms) = length audio"
    using n by (simp add: out len1 k_def length_linspace)
  show "apply_crossfade audio rate ms ! i = audio ! i * linspace 0 1 n ! i" if "i < n"
  proof -
    have "i < k" using that nk by simp
    then have "apply_crossfade audio rate ms ! i = faded1 ! i"
      by (simp add: out nth_append len1 k_def)
    with f1_lo [OF that] show ?thesis by simp
  qed
  show "apply_crossfade audio rate ms ! i = audio ! i" if "n \<le> i" "i < length audio - n"
  proof -
    have "i < k" using that by (simp add: k_def)
    then have "apply_crossfade audio rate ms ! i = faded1 ! i"
      by (simp add: out nth_append len1 k_def)
    with f1_hi [of i] that show ?thesis by simp
  qed
  show "apply_crossfade audio rate ms ! (length audio - n + i) =
           audio ! (length audio - n + i) * linspace 1 0 n ! i" if "i < n"
  proof -
    have lk: "length (take k faded1) = k"
      by (simp add: len1 k_def)
    have "apply_crossfade audio rate ms ! (k + i) = map2 (*) (drop k faded1) (linspace 1 0 n) ! i"
      unfolding out using lk by (metis nth_append_length_plus)
    also have "\<dots> = faded1 ! (k + i) * linspace 1 0 n ! i"
      using that n by (simp add: length_linspace len1 k_def)
    also have "faded1 ! (k + i) = audio ! (k + i)"
      using that n nk by (intro f1_hi) (simp_all add: k_def)
    finally show ?thesis by (simp add: k_def)
  qed
qed

lemma apply_crossfade_length: "length (apply_crossfade audio rate ms) = length audio"
proof (cases "audio \<noteq> [] \<and> 0 < fade_samples audio rate ms")
  case True
  then show ?thesis by (simp add: apply_crossfade_nth(1))
next
  case False
  then show ?thesis by (auto simp: apply_crossfade_def Let_def)
qed

lemma upt_2: "[0..<2] = [0, 1]"
  by (simp add: numeral_2_eq_2)

lemma upt_3: "[0..<3] = [0, 1, 2]"
  by (simp add: numeral_3_eq_3 numeral_2_eq_2)

text \<open>
  C9 (amended). \<^verbatim>\<open>apply_crossfade\<close> returns an empty buffer unchanged and keeps the length
  of every buffer. The fade length \<open>n\<close> of a buffer longer than twice the number of samples
  in \<^verbatim>\<open>fade_duration_ms\<close> (that number is \<^verbatim>\<open>int(fade_duration_ms * sample_rate / 1000)\<close>) is
  that number; a buffer not longer than twice that number gets a quarter of its length
  (rounded down) instead. A non-empty buffer whose fade length is not positive is
  returned unchanged. With a positive fade length the first \<open>n\<close> samples are multiplied by
  \<^verbatim>\<open>linspace(0, 1, n)\<close>, the last \<open>n\<close> by \<^verbatim>\<open>linspace(1, 0, n)\<close>, the samples between are
  untouched, and the first sample of the output is 0. With a fade length of at least 2
  the ramps are linear (factor \<open>i / (n - 1)\<close> going in, \<open>1 - i / (n - 1)\<close> going out): the
  last sample of the fade-in and the first of the fade-out are at full amplitude, and the
  last sample of the output is 0. With a fade length of 1 the only fade-in sample is 0
  and the fade-out leaves the last sample as it is.
\<close>

theorem crossfade_linear_fade:
  fixes audio :: samples and rate :: int and ms :: real
  defines "out \<equiv> apply_crossfade audio rate ms"
    and "n \<equiv> nat (fade_samples audio rate ms)"
    and "L \<equiv> length audio"
  shows
  "apply_crossfade [] rate ms = [] \<and>
   length out = L \<and>
   (int L \<le> 2 * py_int (ms * real_of_int rate / 1000) \<longrightarrow>
      fade_samples audio rate ms = int L div 4) \<and>
   (2 * py_int (ms * real_of_int rate / 1000) < int L \<longrightarrow>
      fade_samples audio rate ms = py_int (ms * real_of_int rate / 1000)) \<and>
   (audio \<noteq> [] \<and> fade_samples audio rate ms \<le> 0 \<longrightarrow> out = audio) \<and>
   (audio \<noteq> [] \<and> 0 < fade_samples audio rate ms \<longrightarrow>
      2 * n \<le> L \<and>
      (\<forall>i<n. out ! i = audio ! i * linspace 0 1 n ! i \<and>
              out ! (L - n + i) = audio ! (L - n + i) * linspace 1 0 n ! i) \<and>
      (\<forall>i. n \<le> i \<and> i < L - n \<longrightarrow> out ! i = audio ! i) \<and>
      out ! 0 = 0) \<and>
   (audio \<noteq> [] \<and> 2 \<le> fade_samples audio rate ms \<longrightarrow>
      (\<forall>i<n. out ! i = audio ! i * (real i / real (n - 1)) \<and>
              out ! (L - n + i) = audio ! (L - n + i) * (1 - real i / real (n - 1))) \<and>
      out ! (n - 1) = audio ! (n - 1) \<and>
      out ! (L - n) = audio ! (L - n) \<and>
      out ! (L - 1) = 0) \<and>
   (audio \<noteq> [] \<and> fade_samples audio rate ms = 1 \<longrightarrow>
      out ! 0 = 0 \<and> out ! (L - 1) = audio ! (L - 1))"
proof -
  have a: "apply_crossfade [] rate ms = []"
    by (simp add: apply_crossfade_def)
  have b: "length out = L"
    by (simp add: out_def L_def apply_crossfade_length)
  have c: "fade_samples audio rate ms = int L div 4"
    if "int L \<le> 2 * py_int (ms * real_of_int rate / 1000)"
    using that by (simp add: fade_samples_def Let_def L_def)
  have c': "fade_samples audio rate ms = py_int (ms * real_of_int rate / 1000)"
    if "2 * py_int (ms * real_of_int rate / 1000) < int L"
    using that by (simp add: fade_samples_def Let_def L_def)
  have d: "out = audio" if "audio \<noteq> []" "fade_samples audio rate ms \<le> 0"
    using that by (simp add: out_def apply_crossfade_def Let_def)
  have e: "2 * n \<le> L \<and>
      (\<forall>i<n. out ! i = audio ! i * linspace 0 1 n ! i \<and>
              out ! (L - n + i) = audio ! (L - n + i) * linspace 1 0 n ! i) \<and>
      (\<forall>i. n \<le> i \<and> i < L - n \<longrightarrow> out ! i = audio ! i) \<and>
      out ! 0 = 0"
    if ne: "audio \<noteq> []" and pos: "0 < fade_samples audio rate ms"
  proof -
    have npos: "0 < n" using pos by (simp add: n_def)
    have "out ! 0 = audio ! 0 * linspace 0 1 n ! 0"
      unfolding out_def n_def using npos by (intro apply_crossfade_nth(2) [OF ne pos]) (simp add: n_def)
    then have "out ! 0 = 0"
      using npos by (simp add: linspace_first)
    then show ?thesis
      using fade_samples_bound [OF pos] apply_crossfade_nth(2,3,4) [OF ne pos]
      by (simp add: out_def n_def L_def)
  qed
  have f: "(\<forall>i<n. out ! i = audio ! i * (real i / real (n - 1)) \<and>
              out ! (L - n + i) = audio ! (L - n + i) * (1 - real i / real (n - 1))) \<and>
      out ! (n - 1) = audio ! (n - 1) \<and>
      out ! (L - n) = audio ! (L - n) \<and>
      out ! (L - 1) = 0"
    if ne: "audio \<noteq> []" and two: "2 \<le> fade_samples audio rate ms"
  proof -
    have pos: "0 < fade_samples audio rate ms" using two by simp
    have n2: "2 \<le> n" using two by (simp add: n_def)
    note e' = e [OF ne pos]
    have nL: "2 * n \<le> L" using e' by simp
    have ramp: "out ! i = audio ! i * (real i / real (n - 1)) \<and>
              out ! (L - n + i) = audio ! (L - n + i) * (1 - real i / real (n - 1))" if "i < n" for i
    proof -
      from e' that have "out ! i = audio ! i * linspace 0 1 n ! i"
        and "out ! (L - n + i) = audio ! (L - n + i) * linspace 1 0 n ! i"
        by blast+
      then show ?thesis
        by (simp add: linspace_nth [OF n2 that])
    qed
    have "out ! (n - 1) = audio ! (n - 1)"
      using ramp [of "n - 1"] n2 by simp
    moreover have "out ! (L - n) = audio ! (L - n)"
      using ramp [of 0] n2 by simp
    moreover have "out ! (L - 1) = 0"
    proof -
      have "L - n + (n - 1) = L - 1" using nL n2 by simp
      then show ?thesis using ramp [of "n - 1"] n2 by simp
    qed
    ultimately show ?thesis using ramp by blast
  qed
  have g: "out ! 0 = 0 \<and> out ! (L - 1) = audio ! (L - 1)"
    if ne: "audio \<noteq> []" and one: "fade_samples audio rate ms = 1"
  proof -
    have pos: "0 < fade_samples audio rate ms" using one by simp
    have n1: "n = 1" using one by (simp add: n_def)
    note e' = e [OF ne pos]
    have o0: "out ! 0 = 0"
      using e' by blast
    have "out ! (L - n + 0) = audio ! (L - n + 0) * linspace 1 0 n ! 0"
      using e' n1 by blast
    moreover have "linspace 1 0 n ! 0 = 1"
      by (simp add: n1 linspace_one)
    ultimately have "out ! (L - 1) = audio ! (L - 1)"
      using n1 by simp
    with o0 show ?thesis
      by simp
  qed
  from a b c c' d e f g show ?thesis
    by blast
qed

lemma apply_crossfade_example: "apply_crossfade [2,2,2,2,2,2,2] 1000 3 = [0,1,2,2,2,1,0]"
  by (simp add: apply_crossfade_def fade_samples_def py_int_def linspace_def Let_def upt_3)


theorem crossfade_linear_fade_witness:
  "[1, 1, 1, 1, 1, 1, 1, 1] \<noteq> ([] :: samples) \<and>
   int (length [1, 1, 1, 1, 1, 1, 1, 1 :: real]) \<le> 2 * py_int (10 * real_of_int 24000 / 1000) \<and>
   2 \<le> fade_samples [1, 1, 1, 1, 1, 1, 1, 1] 24000 10 \<and>
   fade_samples [1, 1, 1, 1, 1, 1, 1, 1] 24000 10 = 8 div 4 \<and>
   apply_crossfade [1, 1, 1, 1, 1, 1, 1, 1] 24000 10 ! 0 = 0 \<and>
   apply_crossfade [1, 1, 1, 1, 1, 1, 1, 1] 24000 10 ! 1 = 1 \<and>
   apply_crossfade [1, 1, 1, 1, 1, 1, 1, 1] 24000 10 ! 6 = 1 \<and>
   apply_crossfade [1, 1, 1, 1, 1, 1, 1, 1] 24000 10 ! 7 = 0 \<and>
   fade_samples [1, 1, 1, 1] 24000 10 = 1 \<and>
   apply_crossfade [1, 1, 1, 1] 24000 10 ! 0 = 0 \<and>
   apply_crossfade [1, 1, 1, 1] 24000 10 ! 3 = 1 \<and>
   fade_samples [1] 24000 10 \<le> 0 \<and>
   apply_crossfade [1] 24000 10 = [1] \<and>
   int (length [1, 1, 1, 1 :: real]) \<le> 2 * py_int (2 * real_of_int 1000 / 1000) \<and>
   fade_samples [1, 1, 1, 1] 1000 2 = 1 \<and>
   py_int (10 * real_of_int 24000 / 1000) = 240 \<and>
   replicate 12000 1 \<noteq> ([] :: samples) \<and>
   2 * py_int (10 * real_of_int 24000 / 1000) < int (length (replicate 12000 (1 :: real))) \<and>
   fade_samples (replicate 12000 1) 24000 10 = 240 \<and>
   length (apply_crossfade (replicate 12000 1) 24000 10) = 12000 \<and>
   apply_crossfade (replicate 12000 1) 24000 10 ! 0 = 0 \<and>
   apply_crossfade (replicate 12000 1) 24000 10 ! 1 = 1 / 239 \<and>
   apply_crossfade (replicate 12000 1) 24000 10 ! 239 = 1 \<and>
   apply_crossfade (replicate 12000 1) 24000 10 ! 6000 = 1 \<and>
   apply_crossfade (replicate 12000 1) 24000 10 ! 11760 = 1 \<and>
   apply_crossfade (replicate 12000 1) 24000 10 ! 11998 = 1 / 239 \<and>
   apply_crossfade (replicate 12000 1) 24000 10 ! 11999 = 0"
proof -
  have ne: "[1, 1, 1, 1, 1, 1, 1, 1] \<noteq> ([] :: samples)" "[1, 1, 1, 1] \<noteq> ([] :: samples)"
    "[1] \<noteq> ([] :: samples)"
    by simp_all
  have short: "int (length [1, 1, 1, 1, 1, 1, 1, 1 :: real]) \<le> 2 * py_int (10 * real_of_int 24000 / 1000)"
    by (simp add: py_int_def)
  have fs8: "fade_samples [1, 1, 1, 1, 1, 1, 1, 1] 24000 10 = 2"
    by (simp add: fade_samples_def py_int_def Let_def)
  have fs4: "fade_samples [1, 1, 1, 1] 24000 10 = 1"
    by (simp add: fade_samples_def py_int_def Let_def)
  have fs1: "fade_samples [1] 24000 10 = 0"
    by (simp add: fade_samples_def py_int_def Let_def)
  note t8 = crossfade_linear_fade [where audio = "[1, 1, 1, 1, 1, 1, 1, 1]" and rate = 24000 and ms = 10]
  note t4 = crossfade_linear_fade [where audio = "[1, 1, 1, 1]" and rate = 24000 and ms = 10]
  note t1 = crossfade_linear_fade [where audio = "[1]" and rate = 24000 and ms = 10]
  note te = crossfade_linear_fade [where audio = "[1, 1, 1, 1]" and rate = 1000 and ms = 2]
  note tl = crossfade_linear_fade [where audio = "replicate 12000 1" and rate = 24000 and ms = 10]
  have w8: "apply_crossfade [1, 1, 1, 1, 1, 1, 1, 1] 24000 10 ! 0 = 0 \<and>
        apply_crossfade [1, 1, 1, 1, 1, 1, 1, 1] 24000 10 ! 1 = 1 \<and>
        apply_crossfade [1, 1, 1, 1, 1, 1, 1, 1] 24000 10 ! 6 = 1 \<and>
        apply_crossfade [1, 1, 1, 1, 1, 1, 1, 1] 24000 10 ! 7 = 0"
    using t8 ne(1) by (simp add: fs8 eval_nat_numeral)
  have w4: "apply_crossfade [1, 1, 1, 1] 24000 10 ! 0 = 0 \<and>
        apply_crossfade [1, 1, 1, 1] 24000 10 ! 3 = 1"
    using t4 ne(2) by (simp add: fs4 eval_nat_numeral)
  have w1: "apply_crossfade [1] 24000 10 = [1]"
    using t1 ne(3) by (simp add: fs1)
  have eq: "int (length [1, 1, 1, 1 :: real]) \<le> 2 * py_int (2 * real_of_int 1000 / 1000)"
    by (simp add: py_int_def)
  have we: "fade_samples [1, 1, 1, 1] 1000 2 = 1"
    using te eq by simp
  have fs0: "py_int (10 * real_of_int 24000 / 1000) = 240"
    by (simp add: py_int_def)
  have nel: "replicate 12000 1 \<noteq> ([] :: samples)"
    by simp
  have long: "2 * py_int (10 * real_of_int 24000 / 1000) < int (length (replicate 12000 (1 :: real)))"
    by (simp add: py_int_def)
  have fsl: "fade_samples (replicate 12000 1) 24000 10 = 240"
    using tl long fs0 by simp
  have two: "2 \<le> fade_samples (replicate 12000 1) 24000 10" "0 < fade_samples (replicate 12000 1) 24000 10"
    by (simp_all add: fsl)
  have len: "length (apply_crossfade (replicate 12000 1) 24000 10) = 12000"
    using tl by simp
  from tl nel two(2) have mid: "\<forall>i. nat (fade_samples (replicate 12000 1) 24000 10) \<le> i \<and>
      i < length (replicate 12000 (1::real)) - nat (fade_samples (replicate 12000 1) 24000 10) \<longrightarrow>
      apply_crossfade (replicate 12000 1) 24000 10 ! i = replicate 12000 1 ! i"
    and first: "apply_crossfade (replicate 12000 1) 24000 10 ! 0 = 0"
    by blast+
  from tl nel two(1) have ramp: "\<forall>i < nat (fade_samples (replicate 12000 1) 24000 10).
      apply_crossfade (replicate 12000 1) 24000 10 ! i =
        replicate 12000 1 ! i * (real i / real (nat (fade_samples (replicate 12000 1) 24000 10) - 1)) \<and>
      apply_crossfade (replicate 12000 1) 24000 10 !
          (length (replicate 12000 (1::real)) - nat (fade_samples (replicate 12000 1) 24000 10) + i) =
        replicate 12000 1 !
          (length (replicate 12000 (1::real)) - nat (fade_samples (replicate 12000 1) 24000 10) + i) *
        (1 - real i / real (nat (fade_samples (replicate 12000 1) 24000 10) - 1))"
    by blast
  have l6000: "apply_crossfade (replicate 12000 1) 24000 10 ! 6000 = 1"
    using mid [rule_format, of 6000] by (simp add: fsl)
  have l1: "apply_crossfade (replicate 12000 1) 24000 10 ! 1 = 1 / 239"
    using ramp [rule_format, of 1] by (simp add: fsl)
  have l239: "apply_crossfade (replicate 12000 1) 24000 10 ! 239 = 1"
    using ramp [rule_format, of 239] by (simp add: fsl)
  have l11760: "apply_crossfade (replicate 12000 1) 24000 10 ! 11760 = 1"
    using ramp [rule_format, of 0] by (simp add: fsl)
  have l11998: "apply_crossfade (replicate 12000 1) 24000 10 ! 11998 = 1 / 239"
    using ramp [rule_format, of 238] by (simp add: fsl)
  have l11999: "apply_crossfade (replicate 12000 1) 24000 10 ! 11999 = 0"
    using ramp [rule_format, of 239] by (simp add: fsl)
  have fs8': "2 \<le> fade_samples [1, 1, 1, 1, 1, 1, 1, 1] 24000 10"
    "fade_samples [1, 1, 1, 1, 1, 1, 1, 1] 24000 10 = 8 div 4"
    "fade_samples [1] 24000 10 \<le> 0"
    by (simp_all add: fs8 fs1)
  from ne(1) short fs8' fs4 w8 w4 w1 eq we fs0 nel long fsl len first l1 l239 l6000 l11760 l11998 l11999
  show ?thesis
    by blast
qed

text \<open>
  The claim as written fails at a fade length of 1 (a buffer of four samples at the
  default rate and duration): the fade-in has one sample, which is 0, so its last sample
  is not at full amplitude. Nor is the last sample of the output at full amplitude for a
  longer fade: the fade-out brings it to 0.
\<close>

theorem crossfade_fade_length_one_counterexample:
  "[1, 1, 1, 1] \<noteq> ([] :: samples) \<and>
   0 < fade_samples [1, 1, 1, 1] 24000 10 \<and>
   apply_crossfade [1, 1, 1, 1] 24000 10 = [0, 1, 1, 1] \<and>
   apply_crossfade [1, 1, 1, 1] 24000 10 ! (nat (fade_samples [1, 1, 1, 1] 24000 10) - 1) \<noteq>
     [1, 1, 1, 1] ! (nat (fade_samples [1, 1, 1, 1] 24000 10) - 1) \<and>
   0 < fade_samples [1, 1, 1, 1, 1, 1, 1, 1] 24000 10 \<and>
   apply_crossfade [1, 1, 1, 1, 1, 1, 1, 1] 24000 10 = [0, 1, 1, 1, 1, 1, 1, 0]"
  by (simp add: apply_crossfade_def fade_samples_def py_int_def linspace_def Let_def upt_2)

section \<open>Normalisation\<close>

lemma tanh_le_self: 
  fixes x :: real assumes "0 \<le> x" shows "tanh x \<le> x"
proof -
  have d: "((\<lambda>x. x - tanh x) has_real_derivative (tanh y)\<^sup>2) (at y)" for y :: real
    by (auto intro!: derivative_eq_intros simp: cosh_real_nonzero)
  have "(\<lambda>x. x - tanh x) 0 \<le> (\<lambda>x. x - tanh x) x"
  proof (rule DERIV_nonneg_imp_nondecreasing [OF assms])
    fix y :: real
    show "\<exists>z. ((\<lambda>x. x - tanh x) has_real_derivative z) (at y) \<and> 0 \<le> z"
      using d [of y] by (intro exI [of _ "(tanh y)\<^sup>2"]) simp
  qed
  then show ?thesis by simp
qed

lemma abs_tanh_le: "\<bar>tanh (x::real)\<bar> \<le> \<bar>x\<bar>"
  by (metis abs_ge_zero tanh_le_self tanh_real_abs)

lemma sum_squares_nonneg: "0 \<le> sum_list (map (\<lambda>x. (g x)\<^sup>2) xs)" for g :: "'a \<Rightarrow> real"
  by (rule sum_list_nonneg) auto

lemma rms_nonneg: "0 \<le> rms xs"
  unfolding rms_def
  by (intro real_sqrt_ge_zero divide_nonneg_nonneg sum_squares_nonneg [of "\<lambda>x. x"]) simp

lemma rms_scale: "rms (map (\<lambda>x. x * f) xs) = \<bar>f\<bar> * rms xs"
proof -
  have "sum_list (map (\<lambda>x. (x * f)\<^sup>2) xs) = f\<^sup>2 * sum_list (map (\<lambda>x. x\<^sup>2) xs)"
    by (simp add: power_mult_distrib sum_list_mult_const mult.commute)
  then have "rms (map (\<lambda>x. x * f) xs) =
      sqrt (f\<^sup>2 * (sum_list (map (\<lambda>x. x\<^sup>2) xs) / real (length xs)))"
    by (simp add: rms_def comp_def)
  also have "\<dots> = \<bar>f\<bar> * rms xs"
    by (simp only: real_sqrt_mult real_sqrt_abs rms_def)
  finally show ?thesis .
qed

lemma rms_mono:
  assumes "\<And>x. x \<in> set xs \<Longrightarrow> \<bar>g x\<bar> \<le> \<bar>h x\<bar>"
  shows "rms (map g xs) \<le> rms (map h xs)"
proof -
  have "(g x)\<^sup>2 \<le> (h x)\<^sup>2" if "x \<in> set xs" for x
    using assms [OF that] by (simp add: abs_le_square_iff)
  then have "sum_list (map (\<lambda>x. (g x)\<^sup>2) xs) \<le> sum_list (map (\<lambda>x. (h x)\<^sup>2) xs)"
    by (intro sum_list_mono) auto
  then show ?thesis
    by (simp add: rms_def comp_def divide_right_mono)
qed

lemma rms_pos_iff: "0 < rms xs \<longleftrightarrow> (\<exists>x \<in> set xs. x \<noteq> 0)"
proof
  assume "0 < rms xs"
  then have "sum_list (map (\<lambda>x. x\<^sup>2) xs) \<noteq> 0"
    by (auto simp: rms_def)
  then show "\<exists>x \<in> set xs. x \<noteq> 0"
    by (induction xs) (auto split: if_splits)
next
  assume "\<exists>x \<in> set xs. x \<noteq> 0"
  then obtain x where x: "x \<in> set xs" "x \<noteq> 0" by blast
  then have "0 < x\<^sup>2" by simp
  also have "x\<^sup>2 \<le> sum_list (map (\<lambda>x. x\<^sup>2) xs)"
    using x(1) by (intro member_le_sum_list) auto
  finally have "0 < sum_list (map (\<lambda>x. x\<^sup>2) xs)" .
  moreover have "0 < length xs" using x(1) by (cases xs) auto
  ultimately show "0 < rms xs"
    by (simp add: rms_def)
qed


lemma rms_single: "rms [x] = \<bar>x\<bar>"
  by (simp add: rms_def)

lemma normalize_unchanged: "\<not> 0 < rms xs \<Longrightarrow> normalize_audio_level xs t = xs"
  by (simp add: normalize_audio_level_def Let_def)

lemma normalize_scaled:
  "0 < rms xs \<Longrightarrow>
   normalize_audio_level xs t =
     map (\<lambda>x. tanh (x * (if t / rms xs > 2 then 2 + (t / rms xs - 2) * 0.3 else t / rms xs) * 0.9) * 0.8) xs"
  by (auto simp: normalize_audio_level_def Let_def rms_def)

lemma rms_soft_limit_le: "rms (map (\<lambda>x. tanh (x * f * 0.9) * 0.8) xs) \<le> 0.72 * \<bar>f\<bar> * rms xs"
proof -
  have "\<bar>tanh (x * f * 0.9) * 0.8\<bar> \<le> \<bar>x * (0.72 * f)\<bar>" for x
  proof -
    have "\<bar>tanh (x * f * 0.9) * 0.8\<bar> = \<bar>tanh (x * f * 0.9)\<bar> * 0.8"
      by (simp add: abs_mult)
    also have "\<dots> \<le> \<bar>x * f * 0.9\<bar> * 0.8"
      by (intro mult_right_mono abs_tanh_le) simp
    also have "\<dots> = \<bar>x * (0.72 * f)\<bar>"
      by (simp add: abs_mult)
    finally show ?thesis .
  qed
  then have "rms (map (\<lambda>x. tanh (x * f * 0.9) * 0.8) xs) \<le> rms (map (\<lambda>x. x * (0.72 * f)) xs)"
    by (intro rms_mono)
  also have "\<dots> = 0.72 * \<bar>f\<bar> * rms xs"
    unfolding rms_scale by (simp add: abs_mult)
  finally show ?thesis .
qed

lemma rms_normalize_le:
  assumes r: "0 < rms xs" and t: "0 < t"
  shows "rms (normalize_audio_level xs t) \<le> 0.72 * t"
proof -
  define f0 where "f0 = t / rms xs"
  define f where "f = (if f0 > 2 then 2 + (f0 - 2) * 0.3 else f0)"
  have f0: "0 < f0" using r t by (simp add: f0_def)
  have f: "0 < f" "f \<le> f0"
  proof -
    show "0 < f"
      using f0 unfolding f_def by argo
    show "f \<le> f0"
      using f0 unfolding f_def by argo
  qed
  have "rms (normalize_audio_level xs t) \<le> 0.72 * \<bar>f\<bar> * rms xs"
    unfolding normalize_scaled [OF r] f_def f0_def by (rule rms_soft_limit_le)
  also have "\<dots> \<le> 0.72 * f0 * rms xs"
    using f r by (intro mult_right_mono mult_left_mono) simp_all
  also have "\<dots> = 0.72 * t"
    using r by (simp add: f0_def)
  finally show ?thesis .
qed

text \<open>
  C5 (amended). \<^verbatim>\<open>normalize_audio_level\<close> returns an empty or all-zero buffer unchanged.
  For a buffer with positive RMS it scales every sample by \<open>f\<close>, where \<open>f\<close> is
  \<open>target_rms / rms\<close>, or the knee \<open>2 + (target_rms / rms - 2) * 0.3\<close> when that quotient
  exceeds 2, and then passes every scaled sample through the soft limiter
  \<^verbatim>\<open>tanh(y * 0.9) * 0.8\<close>. So it is the scaled buffer before the limiter whose RMS is the
  target (when the quotient is at most 2) or \<open>f * rms\<close>, below the target (with the
  knee); the RMS of the returned buffer is at most 0.72 times a positive target, hence
  never equal to it.
\<close>

theorem normalize_scales_then_limits:
  fixes xs :: samples and t :: real
  defines "f0 \<equiv> t / rms xs"
  defines "f \<equiv> (if f0 > 2 then 2 + (f0 - 2) * 0.3 else f0)"
  shows
  "normalize_audio_level [] t = [] \<and>
   (list_all (\<lambda>x. x = 0) xs \<longrightarrow> normalize_audio_level xs t = xs) \<and>
   (0 < rms xs \<longrightarrow>
      normalize_audio_level xs t = map (\<lambda>x. tanh (x * f * 0.9) * 0.8) xs \<and>
      (0 \<le> t \<and> f0 \<le> 2 \<longrightarrow> f = f0 \<and> rms (map (\<lambda>x. x * f) xs) = t) \<and>
      (2 < f0 \<longrightarrow> f = 2 + (f0 - 2) * 0.3 \<and> rms (map (\<lambda>x. x * f) xs) = f * rms xs \<and>
                   f * rms xs < t) \<and>
      (0 < t \<longrightarrow> rms (normalize_audio_level xs t) \<le> 0.72 * t \<and>
                  rms (normalize_audio_level xs t) < t))"
proof -
  have a: "normalize_audio_level [] t = []"
    by (simp add: normalize_audio_level_def)
  have b: "normalize_audio_level xs t = xs" if "list_all (\<lambda>x. x = 0) xs"
  proof -
    have "\<not> 0 < rms xs"
      using that by (simp add: rms_pos_iff list_all_iff)
    then show ?thesis by (rule normalize_unchanged)
  qed
  have c: "normalize_audio_level xs t = map (\<lambda>x. tanh (x * f * 0.9) * 0.8) xs" if "0 < rms xs"
    unfolding f_def f0_def by (rule normalize_scaled [OF that])
  have d: "f = f0 \<and> rms (map (\<lambda>x. x * f) xs) = t" if "0 < rms xs" "0 \<le> t" "f0 \<le> 2"
  proof -
    have "f = f0" using that by (simp add: f_def)
    moreover have "0 \<le> f0" using that by (simp add: f0_def)
    moreover have "rms (map (\<lambda>x. x * f) xs) = \<bar>f\<bar> * rms xs"
      by (rule rms_scale)
    ultimately show ?thesis
      using that by (simp add: f0_def)
  qed
  have e: "f = 2 + (f0 - 2) * 0.3 \<and> rms (map (\<lambda>x. x * f) xs) = f * rms xs \<and> f * rms xs < t"
    if r: "0 < rms xs" and k: "2 < f0"
  proof -
    have f: "f = 2 + (f0 - 2) * 0.3" using k by (simp add: f_def)
    then have "0 < f" "f < f0" using k by argo+
    then have "f * rms xs < f0 * rms xs"
      using r by simp
    also have "\<dots> = t" using r by (simp add: f0_def)
    finally have "f * rms xs < t" .
    moreover have "rms (map (\<lambda>x. x * f) xs) = \<bar>f\<bar> * rms xs"
      by (rule rms_scale)
    ultimately show ?thesis
      using f \<open>0 < f\<close> by simp
  qed
  have g: "rms (normalize_audio_level xs t) \<le> 0.72 * t \<and> rms (normalize_audio_level xs t) < t"
    if "0 < rms xs" "0 < t"
    using rms_normalize_le [OF that] that(2) by simp
  from a b c d e g show ?thesis
    by blast
qed

theorem normalize_scales_then_limits_witness:
  "0 < rms [1] \<and> (0::real) \<le> 0.15 \<and> 0.15 / rms [1] \<le> 2 \<and> (0::real) < 0.15 \<and>
   normalize_audio_level [1] 0.15 = [tanh 0.135 * 0.8] \<and>
   rms (map (\<lambda>x. x * 0.15) [1]) = 0.15 \<and>
   rms (normalize_audio_level [1] 0.15) < 0.15 \<and>
   0 < rms [0.05] \<and> 2 < 0.15 / rms [0.05] \<and>
   normalize_audio_level [0.05] 0.15 = [tanh (0.05 * 2.3 * 0.9) * 0.8] \<and>
   list_all (\<lambda>x. x = 0) [0, 0 :: real] \<and>
   normalize_audio_level [0, 0] 0.15 = [0, 0]"
proof -
  note t1 = normalize_scales_then_limits [where xs = "[1]" and t = "0.15"]
  note t2 = normalize_scales_then_limits [where xs = "[0.05]" and t = "0.15"]
  note t3 = normalize_scales_then_limits [where xs = "[0, 0]" and t = "0.15"]
  have h1: "0 < rms [1]" "(0::real) \<le> 0.15" "0.15 / rms [1] \<le> 2" "(0::real) < 0.15"
    by (simp_all add: rms_single)
  have h2: "0 < rms [0.05]" "2 < 0.15 / rms [0.05]"
    by (simp_all add: rms_single)
  have h3: "list_all (\<lambda>x. x = 0) [0, 0 :: real]"
    by simp
  have w1: "normalize_audio_level [1] 0.15 = [tanh 0.135 * 0.8]"
    using t1 by (simp add: rms_single)
  have w2: "rms (map (\<lambda>x. x * 0.15) [1]) = 0.15"
    using t1 by (simp add: rms_single)
  have w3: "rms (normalize_audio_level [1] 0.15) < 0.15"
    using t1 h1 by blast
  have w4: "normalize_audio_level [0.05] 0.15 = [tanh (0.05 * 2.3 * 0.9) * 0.8]"
    using t2 by (simp add: rms_single)
  have w5: "normalize_audio_level [0, 0] 0.15 = [0, 0]"
    using t3 h3 by blast
  from h1 h2 h3 w1 w2 w3 w4 w5 show ?thesis
    by blast
qed

text \<open>
  The claim as written fails for the one-sample buffer \<open>[1]\<close> at the default target: the
  required factor is 0.15, no knee applies, and the RMS of the result is
  \<open>tanh(0.135) * 0.8\<close>, which is below 0.108.
\<close>

theorem normalize_rms_not_target_counterexample:
  "[1] \<noteq> ([] :: samples) \<and> rms [1] \<noteq> 0 \<and> \<not> 2 < 0.15 / rms [1] \<and>
   rms (normalize_audio_level [1] 0.15) \<noteq> 0.15"
proof -
  have "0 < rms [1]" "(0::real) < 0.15"
    by (simp_all add: rms_single)
  from rms_normalize_le [OF this] show ?thesis
    by (simp add: rms_single)
qed

section \<open>Mixing\<close>

lemma length_soft_mix:
  "length (soft_mix mic_audio system_audio mr sr) = max (length mic_audio) (length system_audio)"
  by (simp add: soft_mix_def Let_def)

lemma soft_mix_bound:
  assumes "x \<in> set (soft_mix mic_audio system_audio mr sr)"
  shows "\<bar>x\<bar> < 0.85"
proof -
  from assms have "x \<in> range (\<lambda>y. tanh (y * 0.8) * 0.85)"
    unfolding soft_mix_def Let_def set_map by blast
  then obtain y where "x = tanh (y * 0.8) * 0.85"
    by blast
  moreover have "\<bar>tanh (y * 0.8)\<bar> < 1"
    using tanh_real_lt_1 [of "y * 0.8"] tanh_real_gt_neg1 [of "y * 0.8"] by (simp add: abs_less_iff)
  ultimately show ?thesis
    by (simp add: abs_mult)
qed

lemma peak_of_le:
  assumes "xs \<noteq> []" and "\<And>x. x \<in> set xs \<Longrightarrow> \<bar>x\<bar> \<le> c"
  shows "peak_of xs \<le> c"
  using assms by (simp add: peak_of_def)

text \<open>
  C10. When both streams handed to \<^verbatim>\<open>mix_audio_streams\<close> are non-empty, every sample of
  the result has absolute value at most 0.85, whatever the inputs and ratios: the peak
  of the compressed mix is at most 0.85, so the test \<^verbatim>\<open>peak > 0.95\<close> is false, the
  rescaling by \<^verbatim>\<open>0.95 / peak\<close> is never applied, and the result is the compressed mix.
\<close>

theorem mix_never_rescales:
  assumes "mic_audio \<noteq> []" and "system_audio \<noteq> []"
  shows "list_all (\<lambda>x. \<bar>x\<bar> \<le> 0.85) (mix_audio_streams mic_audio system_audio mr sr) \<and>
         peak_of (soft_mix mic_audio system_audio mr sr) \<le> 0.85 \<and>
         \<not> peak_of (soft_mix mic_audio system_audio mr sr) > 0.95 \<and>
         mix_audio_streams mic_audio system_audio mr sr = soft_mix mic_audio system_audio mr sr"
proof -
  let ?m = "soft_mix mic_audio system_audio mr sr"
  have ne: "?m \<noteq> []"
    using assms(1) length_soft_mix [of mic_audio system_audio mr sr] by (cases mic_audio) auto
  have bound: "\<bar>x\<bar> \<le> 0.85" if "x \<in> set ?m" for x
    using soft_mix_bound [OF that] by simp
  have peak: "peak_of ?m \<le> 0.85"
    by (rule peak_of_le [OF ne bound])
  then have eq: "mix_audio_streams mic_audio system_audio mr sr = ?m"
    using assms by (simp add: mix_audio_streams_def Let_def)
  show ?thesis
    using peak eq bound by (simp add: list_all_iff)
qed

theorem mix_never_rescales_witness:
  "[1] \<noteq> ([] :: samples) \<and> [1, 1] \<noteq> ([] :: samples) \<and>
   list_all (\<lambda>x. \<bar>x\<bar> \<le> 0.85) (mix_audio_streams [1] [1, 1] 1 1) \<and>
   \<not> peak_of (soft_mix [1] [1, 1] 1 1) > 0.95 \<and>
   mix_audio_streams [1] [1, 1] 1 1 = [tanh 1.6 * 0.85, tanh 0.8 * 0.85]"
proof -
  have h: "[1] \<noteq> ([] :: samples)" "[1, 1] \<noteq> ([] :: samples)"
    by simp_all
  have sm: "soft_mix [1] [1, 1] 1 1 = [tanh 1.6 * 0.85, tanh 0.8 * 0.85]"
    by (simp add: soft_mix_def Let_def)
  note t = mix_never_rescales [OF h, of 1 1]
  have w1: "list_all (\<lambda>x. \<bar>x\<bar> \<le> 0.85) (mix_audio_streams [1] [1, 1] 1 1)"
    using t by blast
  have w2: "\<not> peak_of (soft_mix [1] [1, 1] 1 1) > 0.95"
    using t by blast
  have "mix_audio_streams [1] [1, 1] 1 1 = soft_mix [1] [1, 1] 1 1"
    using t by blast
  then have w3: "mix_audio_streams [1] [1, 1] 1 1 = [tanh 1.6 * 0.85, tanh 0.8 * 0.85]"
    by (simp only: sm)
  from h w1 w2 w3 show ?thesis
    by blast
qed

section \<open>The capture cycle\<close>

lemma record_and_mix_mic_only:
  assumes mic: "record_device_to_memory mic_rec = (mic, True)"
    and sys: "snd (record_device_to_memory system_rec) = False"
  shows "mic \<noteq> []"
    and "record_and_mix_chunk cfg mic_rec system_rec =
           Some (apply_crossfade
                   (map (\<lambda>x. x * mic_volume cfg) (apply_crossfade mic (sample_rate cfg) 10))
                   (sample_rate cfg) 5)"
proof -
  show ne: "mic \<noteq> []"
    using mic by (auto simp: record_device_to_memory_def split: device_result.splits option.splits if_splits)
  obtain sa where sa: "record_device_to_memory system_rec = (sa, False)"
    using sys by (cases "record_device_to_memory system_rec") auto
  have len: "length (apply_crossfade mic (sample_rate cfg) 10) = length mic"
    by (rule apply_crossfade_length)
  show "record_and_mix_chunk cfg mic_rec system_rec =
           Some (apply_crossfade
                   (map (\<lambda>x. x * mic_volume cfg) (apply_crossfade mic (sample_rate cfg) 10))
                   (sample_rate cfg) 5)"
  proof -
    have ne': "apply_crossfade mic (sample_rate cfg) 10 \<noteq> []"
      using ne len by auto
    show ?thesis
      using ne ne' by (simp add: record_and_mix_chunk_def mic sa mix_audio_streams_def Let_def)
  qed
qed

text \<open>
  C3 (amended). In a capture cycle whose microphone recording succeeds (with samples
  \<open>mic\<close>) and whose system recording fails, \<^verbatim>\<open>_record_and_mix_chunk\<close> returns the
  microphone samples after the 10 ms crossfade, multiplied by \<^verbatim>\<open>mic_volume\<close>, and
  crossfaded once more over 5 ms; the cycle hands the 16-bit PCM bytes of exactly that
  signal to the dispatcher. No normalisation takes part: \<^verbatim>\<open>normalize_audio_level\<close> is
  not called on this path.
\<close>

theorem mic_only_cycle:
  assumes "record_device_to_memory mic_rec = (mic, True)"
    and "snd (record_device_to_memory system_rec) = False"
  shows "record_and_mix_chunk cfg mic_rec system_rec =
           Some (apply_crossfade
                   (map (\<lambda>x. x * mic_volume cfg) (apply_crossfade mic (sample_rate cfg) 10))
                   (sample_rate cfg) 5) \<and>
         cycle_bytes cfg mic_rec system_rec =
           Some (pcm16_bytes (apply_crossfade
                   (map (\<lambda>x. x * mic_volume cfg) (apply_crossfade mic (sample_rate cfg) 10))
                   (sample_rate cfg) 5))"
proof -
  have "mic \<noteq> []"
    by (rule record_and_mix_mic_only(1) [OF assms])
  then have "length (apply_crossfade
                   (map (\<lambda>x. x * mic_volume cfg) (apply_crossfade mic (sample_rate cfg) 10))
                   (sample_rate cfg) 5) > 0"
    by (simp add: apply_crossfade_length)
  then show ?thesis
    using record_and_mix_mic_only(2) [OF assms, of cfg] by (simp add: cycle_bytes_def)
qed

theorem mic_only_cycle_witness:
  "record_device_to_memory (Returns (Some [1, 1, 1, 1])) = ([1, 1, 1, 1], True) \<and>
   snd (record_device_to_memory Raises) = False \<and>
   record_and_mix_chunk transcriber_audio_config (Returns (Some [1, 1, 1, 1])) Raises =
     Some [0, 1, 1, 1] \<and>
   cycle_bytes transcriber_audio_config (Returns (Some [1, 1, 1, 1])) Raises =
     Some (pcm16_bytes [0, 1, 1, 1])"
proof -
  have h1: "record_device_to_memory (Returns (Some [1, 1, 1, 1])) = ([1, 1, 1, 1], True)"
    by (simp add: record_device_to_memory_def)
  have h2: "snd (record_device_to_memory Raises) = False"
    by (simp add: record_device_to_memory_def)
  have x1: "apply_crossfade [1, 1, 1, 1] 24000 10 = [0, 1, 1, 1]"
    by (simp add: apply_crossfade_def fade_samples_def py_int_def linspace_def Let_def)
  have x2: "apply_crossfade [0, 1, 1, 1] 24000 5 = [0, 1, 1, 1]"
    by (simp add: apply_crossfade_def fade_samples_def py_int_def linspace_def Let_def)
  from mic_only_cycle [OF h1 h2, of transcriber_audio_config] h1 h2 show ?thesis
    by (simp add: transcriber_audio_config_def SAMPLERATE_def x1 x2)
qed

text \<open>
  The claim as written fails for a one-sample recording \<open>[1]\<close> under the transcriber's
  configuration: the cycle returns \<open>[1]\<close>, while normalising, crossfading and scaling
  would give \<open>[tanh(0.135) * 0.8]\<close>.
\<close>

theorem mic_only_not_normalized_counterexample:
  "record_device_to_memory (Returns (Some [1])) = ([1], True) \<and>
   snd (record_device_to_memory Raises) = False \<and>
   record_and_mix_chunk transcriber_audio_config (Returns (Some [1])) Raises = Some [1] \<and>
   record_and_mix_chunk transcriber_audio_config (Returns (Some [1])) Raises \<noteq>
     Some (map (\<lambda>x. x * mic_volume transcriber_audio_config)
            (apply_crossfade (normalize_audio_level [1] 0.15)
               (sample_rate transcriber_audio_config) 10))"
proof -
  have x: "apply_crossfade [y] 24000 ms = [y]" for y ms
    by (simp add: apply_crossfade_def fade_samples_def Let_def)
  have n: "normalize_audio_level [1] 0.15 = [tanh 0.135 * 0.8]"
    by (simp add: normalize_audio_level_def rms_def Let_def)
  have "tanh (0.135 :: real) * 0.8 < 1"
    using tanh_real_lt_1 [of "0.135"] by simp
  then have neq: "tanh (0.135 :: real) * 0.8 \<noteq> 1"
    by simp
  have r: "record_and_mix_chunk transcriber_audio_config (Returns (Some [1])) Raises = Some [1]"
    by (simp add: record_and_mix_chunk_def record_device_to_memory_def mix_audio_streams_def
        transcriber_audio_config_def SAMPLERATE_def x Let_def)
  have c: "map (\<lambda>x. x * mic_volume transcriber_audio_config)
            (apply_crossfade (normalize_audio_level [1] 0.15)
               (sample_rate transcriber_audio_config) 10) = [tanh 0.135 * 0.8]"
    unfolding n by (simp add: transcriber_audio_config_def SAMPLERATE_def x)
  show ?thesis
    unfolding r c using neq by (simp add: record_device_to_memory_def)
qed

section \<open>Silence\<close>

lemma all_zero_replicate: "(\<And>x. x \<in> set xs \<Longrightarrow> x = z) \<Longrightarrow> xs = replicate (length xs) z"
  by (metis replicate_length_same)

lemma zip_mult_zero:
  assumes "\<And>x. x \<in> set xs \<Longrightarrow> x = (0::real)" and "y \<in> set (map2 (*) xs ys)"
  shows "y = 0"
proof -
  from assms(2) obtain a b where "(a, b) \<in> set (zip xs ys)" "y = a * b"
    by auto
  then show ?thesis
    using assms(1) [of a] by (auto dest: set_zip_leftD)
qed

lemma apply_crossfade_all_zero:
  assumes z: "\<And>x. x \<in> set audio \<Longrightarrow> x = 0" and mem: "y \<in> set (apply_crossfade audio rate ms)"
  shows "y = 0"
proof (cases "audio \<noteq> [] \<and> 0 < fade_samples audio rate ms")
  case False
  then have "apply_crossfade audio rate ms = audio"
    by (auto simp: apply_crossfade_def Let_def)
  with z mem show ?thesis by simp
next
  case True
  define n where "n = nat (fade_samples audio rate ms)"
  define faded1 where "faded1 = map2 (*) (take n audio) (linspace 0 1 n) @ drop n audio"
  define k where "k = length faded1 - n"
  have out: "apply_crossfade audio rate ms = take k faded1 @ map2 (*) (drop k faded1) (linspace 1 0 n)"
    unfolding apply_crossfade_def Let_def faded1_def n_def k_def using True by simp
  have z1: "x = 0" if "x \<in> set faded1" for x
  proof -
    from that consider "x \<in> set (map2 (*) (take n audio) (linspace 0 1 n))" | "x \<in> set (drop n audio)"
      unfolding faded1_def by auto
    then show ?thesis
    proof cases
      case 1
      show ?thesis
        by (rule zip_mult_zero [OF _ 1]) (auto dest: in_set_takeD intro: z)
    next
      case 2
      then show ?thesis by (auto dest: in_set_dropD intro: z)
    qed
  qed
  from mem consider "y \<in> set (take k faded1)" | "y \<in> set (map2 (*) (drop k faded1) (linspace 1 0 n))"
    unfolding out by auto
  then show ?thesis
  proof cases
    case 1
    then show ?thesis by (auto dest: in_set_takeD intro: z1)
  next
    case 2
    show ?thesis
      by (rule zip_mult_zero [OF _ 2]) (auto dest: in_set_dropD intro: z1)
  qed
qed

lemma apply_crossfade_zeros: "apply_crossfade (replicate m 0) rate ms = replicate m 0"
proof -
  have z: "y = 0" if "y \<in> set (apply_crossfade (replicate m 0) rate ms)" for y
    by (rule apply_crossfade_all_zero [OF _ that]) simp
  from all_zero_replicate [of "apply_crossfade (replicate m 0) rate ms" 0, OF z] show ?thesis
    by (simp add: apply_crossfade_length)
qed

lemma soft_mix_elem:
  assumes "x \<in> set (soft_mix a b mr sr)"
  obtains p q where "p \<in> set a \<union> {0}" "q \<in> set b \<union> {0}"
    "x = tanh ((p * mr + q * sr) * 0.8) * 0.85"
proof -
  define A where "A = (if length a < max (length a) (length b)
                       then a @ replicate (max (length a) (length b) - length a) 0 else a)"
  define B where "B = (if length b < max (length a) (length b)
                       then b @ replicate (max (length a) (length b) - length b) 0 else b)"
  have "soft_mix a b mr sr = map (\<lambda>x. tanh (x * 0.8) * 0.85) (map2 (\<lambda>m s. m * mr + s * sr) A B)"
    unfolding soft_mix_def Let_def A_def B_def ..
  with assms have "x \<in> (\<lambda>x. tanh (x * 0.8) * 0.85) ` set (map2 (\<lambda>m s. m * mr + s * sr) A B)"
    by (simp only: set_map)
  then obtain y where y: "y \<in> set (map2 (\<lambda>m s. m * mr + s * sr) A B)"
    and x: "x = tanh (y * 0.8) * 0.85"
    by blast
  from y obtain p q where pq: "(p, q) \<in> set (zip A B)" and yy: "y = p * mr + q * sr"
    by auto
  have "p \<in> set a \<union> {0}"
    using set_zip_leftD [OF pq] by (auto simp: A_def split: if_splits)
  moreover have "q \<in> set b \<union> {0}"
    using set_zip_rightD [OF pq] by (auto simp: B_def split: if_splits)
  ultimately show ?thesis
    using that x yy by blast
qed

lemma soft_mix_zeros: "soft_mix (replicate m 0) (replicate n 0) mr sr = replicate (max m n) 0"
proof -
  have z: "x = 0" if "x \<in> set (soft_mix (replicate m 0) (replicate n 0) mr sr)" for x
  proof -
    from that obtain p q where "p \<in> set (replicate m 0) \<union> {0}" "q \<in> set (replicate n 0) \<union> {0}"
      "x = tanh ((p * mr + q * sr) * 0.8) * 0.85"
      by (rule soft_mix_elem)
    then show ?thesis by auto
  qed
  from all_zero_replicate [of "soft_mix (replicate m 0) (replicate n 0) mr sr" 0, OF z] show ?thesis
    by (simp add: length_soft_mix)
qed

lemma peak_of_zeros: "0 < k \<Longrightarrow> peak_of (replicate k 0) = 0"
  by (simp add: peak_of_def)

lemma mix_zeros:
  "0 < m \<Longrightarrow> 0 < n \<Longrightarrow> mix_audio_streams (replicate m 0) (replicate n 0) mr sr = replicate (max m n) 0"
  by (simp add: mix_audio_streams_def soft_mix_zeros peak_of_zeros Let_def)

lemma int16_bytes_zero: "int16_bytes 0 = [0, 0]"
  by (simp add: int16_bytes_def py_int_def)

lemma pcm16_bytes_zeros: "pcm16_bytes (replicate k 0) = replicate (2 * k) 0"
  by (induction k) (simp_all add: pcm16_bytes_def int16_bytes_zero)

lemma record_zeros:
  "0 < m \<Longrightarrow> record_device_to_memory (Returns (Some (replicate m 0))) = (replicate m 0, True)"
  by (simp add: record_device_to_memory_def)

lemma record_and_mix_zeros:
  assumes "0 < m" "0 < n"
  shows "record_and_mix_chunk cfg (Returns (Some (replicate m 0))) (Returns (Some (replicate n 0))) =
           Some (replicate (max m n) 0)"
  using assms
  by (simp add: record_and_mix_chunk_def record_zeros apply_crossfade_zeros mix_zeros Let_def)

lemma cycle_bytes_zeros:
  assumes "0 < m" "0 < n"
  shows "cycle_bytes cfg (Returns (Some (replicate m 0))) (Returns (Some (replicate n 0))) =
           Some (replicate (2 * max m n) 0)"
  using assms by (simp add: cycle_bytes_def record_and_mix_zeros pcm16_bytes_zeros)

lemma cycle_bytes_both_failed:
  assumes "snd (record_device_to_memory mic_rec) = False"
    and "snd (record_device_to_memory system_rec) = False"
  shows "cycle_bytes cfg mic_rec system_rec = None"
  using assms
  by (cases "record_device_to_memory mic_rec"; cases "record_device_to_memory system_rec")
     (simp add: cycle_bytes_def record_and_mix_chunk_def)

lemma length_concat_frames:
  "list_all (\<lambda>f. int (length f) = F) frames \<Longrightarrow> length (concat frames) = length frames * nat F"
  by (induction frames) auto

lemma dispatch_zero_bytes:
  assumes F: "0 < chunk_size (config st)" and tr: "has_transcriber st"
    and empty: "mixed_buffer st = []"
  shows "\<exists>st'. send_mixed_audio_data True (replicate k 0) st = Some st' \<and>
           forwarded st' = forwarded st @
             replicate (k div nat (chunk_size (config st))) (replicate (nat (chunk_size (config st))) 0) \<and>
           mixed_buffer st' = replicate (k mod nat (chunk_size (config st))) 0"
proof -
  let ?F = "chunk_size (config st)"
  from send_mixed_audio_data_total [OF F, of True "replicate k 0"] tr empty
  obtain st' frames where s: "send_mixed_audio_data True (replicate k 0) st = Some st'"
    and len: "int (length (mixed_buffer st')) < ?F"
    and fw: "forwarded st' = forwarded st @ frames"
    and fr: "list_all (\<lambda>f. int (length f) = ?F) frames"
    and cat: "concat frames @ mixed_buffer st' = replicate k 0"
    by auto
  have "length (concat frames @ mixed_buffer st') = k"
    by (simp only: cat length_replicate)
  then have k: "k = length frames * nat ?F + length (mixed_buffer st')"
    using length_concat_frames [OF fr] by simp
  have lt: "length (mixed_buffer st') < nat ?F"
    using len by simp
  have cnt: "length frames = k div nat ?F" and rest: "length (mixed_buffer st') = k mod nat ?F"
    using k lt by simp_all
  have zero: "x = 0" if "x \<in> set (concat frames @ mixed_buffer st')" for x
    using that unfolding cat by simp
  have "mixed_buffer st' = replicate (length (mixed_buffer st')) 0"
    by (rule all_zero_replicate) (simp add: zero)
  then have buf: "mixed_buffer st' = replicate (k mod nat ?F) 0"
    by (simp only: rest)
  have "f = replicate (nat ?F) 0" if "f \<in> set frames" for f
  proof -
    have "f = replicate (length f) 0"
      using that by (intro all_zero_replicate zero) auto
    moreover have "length f = nat ?F"
      using fr that by (auto simp: list_all_iff)
    ultimately show ?thesis by simp
  qed
  from all_zero_replicate [of frames "replicate (nat ?F) 0", OF this]
  have "frames = replicate (k div nat ?F) (replicate (nat ?F) 0)"
    by (simp only: cnt)
  with s fw buf show ?thesis
    by blast
qed


lemma length_mix_audio_streams:
  "length (mix_audio_streams a b mr sr) = max (length a) (length b)"
  by (simp add: mix_audio_streams_def Let_def length_soft_mix)

lemma record_success_nonempty:
  "record_device_to_memory r = (d, True) \<Longrightarrow> d \<noteq> []"
  by (auto simp: record_device_to_memory_def split: device_result.splits option.splits if_splits)

lemma cycle_bytes_None_iff:
  "cycle_bytes cfg mic_rec system_rec = None \<longleftrightarrow>
     snd (record_device_to_memory mic_rec) = False \<and> snd (record_device_to_memory system_rec) = False"
proof -
  obtain ma ms where m: "record_device_to_memory mic_rec = (ma, ms)"
    by (cases "record_device_to_memory mic_rec")
  obtain sa ss where s: "record_device_to_memory system_rec = (sa, ss)"
    by (cases "record_device_to_memory system_rec")
  have "ma \<noteq> []" if ms using record_success_nonempty [of mic_rec ma] m that by simp
  moreover have "sa \<noteq> []" if ss using record_success_nonempty [of system_rec sa] s that by simp
  ultimately show ?thesis
    by (auto simp: cycle_bytes_def record_and_mix_chunk_def m s Let_def
        apply_crossfade_length length_mix_audio_streams
        simp flip: length_greater_0_conv split: option.splits)
qed

lemma dispatch_onto_residue:
  assumes F: "0 < chunk_size (config st)" and tr: "has_transcriber st"
  shows "\<exists>st' frames. send_mixed_audio_data True bs st = Some st' \<and>
           forwarded st' = forwarded st @ frames \<and>
           list_all (\<lambda>f. int (length f) = chunk_size (config st)) frames \<and>
           length frames = (length (mixed_buffer st) + length bs) div nat (chunk_size (config st)) \<and>
           length (mixed_buffer st') =
             (length (mixed_buffer st) + length bs) mod nat (chunk_size (config st)) \<and>
           concat frames @ mixed_buffer st' = mixed_buffer st @ bs"
proof -
  let ?F = "chunk_size (config st)"
  from send_mixed_audio_data_total [OF F, of True bs] tr
  obtain st' frames where s: "send_mixed_audio_data True bs st = Some st'"
    and len: "int (length (mixed_buffer st')) < ?F"
    and fw: "forwarded st' = forwarded st @ frames"
    and fr: "list_all (\<lambda>f. int (length f) = ?F) frames"
    and cat: "concat frames @ mixed_buffer st' = mixed_buffer st @ bs"
    by auto
  have "length (concat frames @ mixed_buffer st') = length (mixed_buffer st) + length bs"
    by (simp only: cat length_append)
  then have k: "length (mixed_buffer st) + length bs =
      length frames * nat ?F + length (mixed_buffer st')"
    using length_concat_frames [OF fr] by simp
  have lt: "length (mixed_buffer st') < nat ?F"
    using len by simp
  have "length frames = (length (mixed_buffer st) + length bs) div nat ?F"
    and "length (mixed_buffer st') = (length (mixed_buffer st) + length bs) mod nat ?F"
    unfolding k using lt by simp_all
  with s fw fr cat show ?thesis
    by blast
qed

text \<open>
  C4 (amended). A capture cycle in which both recordings succeed with all-zero samples
  (\<open>m\<close> and \<open>n\<close> of them, both positive) is not treated specially: the cycle passes
  \<open>2 * max m n\<close> zero bytes, the 16-bit PCM of \<open>max m n\<close> zero samples, to
  \<^verbatim>\<open>_send_mixed_audio_data\<close>. Without the lock these bytes are dropped. With the lock, a
  transcriber attached and a positive frame size \<open>F\<close>, they are appended to whatever the
  buffer holds (\<open>r\<close> bytes) and \<open>(r + 2 * max m n) div F\<close> frames of \<open>F\<close> bytes are released:
  the frames followed by the bytes left in the buffer are the old buffer followed by the
  zero bytes. From an empty buffer, then, every released frame consists of \<open>F\<close> zero
  bytes. A cycle passes nothing to the dispatcher exactly when both recordings fail.
\<close>

theorem silent_cycle_is_dispatched:
  assumes "0 < m" and "0 < n"
  shows "cycle_bytes cfg (Returns (Some (replicate m 0))) (Returns (Some (replicate n 0))) =
           Some (replicate (2 * max m n) 0) \<and>
         capture_cycle (Returns (Some (replicate m 0))) (Returns (Some (replicate n 0))) acquired st =
           send_mixed_audio_data acquired (replicate (2 * max m n) 0) st \<and>
         capture_cycle (Returns (Some (replicate m 0))) (Returns (Some (replicate n 0))) False st =
           Some st \<and>
         (0 < chunk_size (config st) \<and> has_transcriber st \<longrightarrow>
            (\<exists>st' frames.
               capture_cycle (Returns (Some (replicate m 0))) (Returns (Some (replicate n 0)))
                 True st = Some st' \<and>
               forwarded st' = forwarded st @ frames \<and>
               list_all (\<lambda>f. int (length f) = chunk_size (config st)) frames \<and>
               length frames =
                 (length (mixed_buffer st) + 2 * max m n) div nat (chunk_size (config st)) \<and>
               length (mixed_buffer st') =
                 (length (mixed_buffer st) + 2 * max m n) mod nat (chunk_size (config st)) \<and>
               concat frames @ mixed_buffer st' = mixed_buffer st @ replicate (2 * max m n) 0)) \<and>
         (0 < chunk_size (config st) \<and> has_transcriber st \<and> mixed_buffer st = [] \<longrightarrow>
            (\<exists>st'. capture_cycle (Returns (Some (replicate m 0))) (Returns (Some (replicate n 0)))
                     True st = Some st' \<and>
               forwarded st' = forwarded st @
                 replicate (2 * max m n div nat (chunk_size (config st)))
                   (replicate (nat (chunk_size (config st))) 0) \<and>
               mixed_buffer st' = replicate (2 * max m n mod nat (chunk_size (config st))) 0)) \<and>
         (cycle_bytes cfg mic_rec system_rec = None \<longleftrightarrow>
            snd (record_device_to_memory mic_rec) = False \<and>
            snd (record_device_to_memory system_rec) = False)"
proof -
  have cb: "cycle_bytes c (Returns (Some (replicate m 0))) (Returns (Some (replicate n 0))) =
           Some (replicate (2 * max m n) 0)" for c
    by (rule cycle_bytes_zeros [OF assms])
  have cc: "capture_cycle (Returns (Some (replicate m 0))) (Returns (Some (replicate n 0))) a st =
           send_mixed_audio_data a (replicate (2 * max m n) 0) st" for a
    by (simp add: capture_cycle_def cb)
  have dropped: "capture_cycle (Returns (Some (replicate m 0))) (Returns (Some (replicate n 0)))
      False st = Some st"
    unfolding cc by (simp add: send_mixed_audio_data_def)
  have any: "\<exists>st' frames.
               capture_cycle (Returns (Some (replicate m 0))) (Returns (Some (replicate n 0)))
                 True st = Some st' \<and>
               forwarded st' = forwarded st @ frames \<and>
               list_all (\<lambda>f. int (length f) = chunk_size (config st)) frames \<and>
               length frames =
                 (length (mixed_buffer st) + 2 * max m n) div nat (chunk_size (config st)) \<and>
               length (mixed_buffer st') =
                 (length (mixed_buffer st) + 2 * max m n) mod nat (chunk_size (config st)) \<and>
               concat frames @ mixed_buffer st' = mixed_buffer st @ replicate (2 * max m n) 0"
    if "0 < chunk_size (config st)" "has_transcriber st"
    unfolding cc using dispatch_onto_residue [OF that, of "replicate (2 * max m n) 0"]
    by (simp only: length_replicate)
  have fr: "\<exists>st'. capture_cycle (Returns (Some (replicate m 0))) (Returns (Some (replicate n 0)))
                     True st = Some st' \<and>
               forwarded st' = forwarded st @
                 replicate (2 * max m n div nat (chunk_size (config st)))
                   (replicate (nat (chunk_size (config st))) 0) \<and>
               mixed_buffer st' = replicate (2 * max m n mod nat (chunk_size (config st))) 0"
    if "0 < chunk_size (config st)" "has_transcriber st" "mixed_buffer st = []"
    unfolding cc by (rule dispatch_zero_bytes [OF that])
  have A: "0 < chunk_size (config st) \<and> has_transcriber st \<longrightarrow>
            (\<exists>st' frames.
               capture_cycle (Returns (Some (replicate m 0))) (Returns (Some (replicate n 0)))
                 True st = Some st' \<and>
               forwarded st' = forwarded st @ frames \<and>
               list_all (\<lambda>f. int (length f) = chunk_size (config st)) frames \<and>
               length frames =
                 (length (mixed_buffer st) + 2 * max m n) div nat (chunk_size (config st)) \<and>
               length (mixed_buffer st') =
                 (length (mixed_buffer st) + 2 * max m n) mod nat (chunk_size (config st)) \<and>
               concat frames @ mixed_buffer st' = mixed_buffer st @ replicate (2 * max m n) 0)"
    using any by blast
  have B: "0 < chunk_size (config st) \<and> has_transcriber st \<and> mixed_buffer st = [] \<longrightarrow>
            (\<exists>st'. capture_cycle (Returns (Some (replicate m 0))) (Returns (Some (replicate n 0)))
                     True st = Some st' \<and>
               forwarded st' = forwarded st @
                 replicate (2 * max m n div nat (chunk_size (config st)))
                   (replicate (nat (chunk_size (config st))) 0) \<and>
               mixed_buffer st' = replicate (2 * max m n mod nat (chunk_size (config st))) 0)"
    using fr by blast
  show ?thesis
    by (intro conjI) (rule cb cc dropped A B cycle_bytes_None_iff)+
qed

lemma silent_cycle_onto_residue_example:
  "capture_cycle (Returns (Some (replicate 1 0))) (Returns (Some (replicate 1 0))) True
     ((init_audio_capture (default_audio_config\<lparr> chunk_size := 2 \<rparr>) True)\<lparr> mixed_buffer := [7] \<rparr>) =
   Some ((init_audio_capture (default_audio_config\<lparr> chunk_size := 2 \<rparr>) True)
           \<lparr> mixed_buffer := [0], forwarded := [[7, 0]] \<rparr>)"
proof -
  have "cycle_bytes (default_audio_config\<lparr> chunk_size := 2 \<rparr>)
      (Returns (Some (replicate 1 0))) (Returns (Some (replicate 1 0))) = Some [0, 0]"
    using cycle_bytes_zeros [of 1 1 "default_audio_config\<lparr> chunk_size := 2 \<rparr>"]
    by (simp add: numeral_2_eq_2)
  then show ?thesis
    by (simp add: capture_cycle_def send_mixed_audio_data_def init_audio_capture_def
        default_audio_config_def dispatch_frames.simps slice_to_def slice_from_def)
qed

theorem silent_cycle_is_dispatched_witness:
  "(0::nat) < 1 \<and>
   0 < chunk_size (config (init_audio_capture (default_audio_config\<lparr> chunk_size := 2 \<rparr>) True)) \<and>
   has_transcriber (init_audio_capture (default_audio_config\<lparr> chunk_size := 2 \<rparr>) True) \<and>
   mixed_buffer (init_audio_capture (default_audio_config\<lparr> chunk_size := 2 \<rparr>) True) = [] \<and>
   cycle_bytes (default_audio_config\<lparr> chunk_size := 2 \<rparr>)
     (Returns (Some (replicate 1 0))) (Returns (Some (replicate 1 0))) = Some [0, 0] \<and>
   map_option forwarded
     (capture_cycle (Returns (Some (replicate 1 0))) (Returns (Some (replicate 1 0))) True
        (init_audio_capture (default_audio_config\<lparr> chunk_size := 2 \<rparr>) True)) = Some [[0, 0]] \<and>
   map_option mixed_buffer
     (capture_cycle (Returns (Some (replicate 1 0))) (Returns (Some (replicate 1 0))) True
        (init_audio_capture (default_audio_config\<lparr> chunk_size := 2 \<rparr>) True)) = Some [] \<and>
   snd (record_device_to_memory Raises) = False \<and>
   snd (record_device_to_memory (Returns None)) = False \<and>
   cycle_bytes (default_audio_config\<lparr> chunk_size := 2 \<rparr>) Raises (Returns None) = None \<and>
   0 < chunk_size (config ((init_audio_capture (default_audio_config\<lparr> chunk_size := 2 \<rparr>) True)
         \<lparr> mixed_buffer := [7] \<rparr>)) \<and>
   has_transcriber ((init_audio_capture (default_audio_config\<lparr> chunk_size := 2 \<rparr>) True)
         \<lparr> mixed_buffer := [7] \<rparr>) \<and>
   map_option (\<lambda>s. length (forwarded s))
     (capture_cycle (Returns (Some (replicate 1 0))) (Returns (Some (replicate 1 0))) True
        ((init_audio_capture (default_audio_config\<lparr> chunk_size := 2 \<rparr>) True)
           \<lparr> mixed_buffer := [7] \<rparr>)) = Some 1 \<and>
   map_option (\<lambda>s. length (mixed_buffer s))
     (capture_cycle (Returns (Some (replicate 1 0))) (Returns (Some (replicate 1 0))) True
        ((init_audio_capture (default_audio_config\<lparr> chunk_size := 2 \<rparr>) True)
           \<lparr> mixed_buffer := [7] \<rparr>)) = Some 1 \<and>
   map_option (\<lambda>s. concat (forwarded s) @ mixed_buffer s)
     (capture_cycle (Returns (Some (replicate 1 0))) (Returns (Some (replicate 1 0))) True
        ((init_audio_capture (default_audio_config\<lparr> chunk_size := 2 \<rparr>) True)
           \<lparr> mixed_buffer := [7] \<rparr>)) = Some [7, 0, 0] \<and>
   map_option forwarded
     (capture_cycle (Returns (Some (replicate 1 0))) (Returns (Some (replicate 1 0))) True
        ((init_audio_capture (default_audio_config\<lparr> chunk_size := 2 \<rparr>) True)
           \<lparr> mixed_buffer := [7] \<rparr>)) = Some [[7, 0]] \<and>
   capture_cycle (Returns (Some (replicate 1 0))) (Returns (Some (replicate 1 0))) False
     ((init_audio_capture (default_audio_config\<lparr> chunk_size := 2 \<rparr>) True)\<lparr> mixed_buffer := [7] \<rparr>) =
     Some ((init_audio_capture (default_audio_config\<lparr> chunk_size := 2 \<rparr>) True)
             \<lparr> mixed_buffer := [7] \<rparr>)"
proof -
  let ?cfg = "default_audio_config\<lparr> chunk_size := 2 \<rparr>"
  let ?st = "init_audio_capture ?cfg True"
  let ?sr = "?st\<lparr> mixed_buffer := [7] \<rparr>"
  have h: "(0::nat) < 1"
    by simp
  have hs: "0 < chunk_size (config ?st)" "has_transcriber ?st" "mixed_buffer ?st = []"
    by (simp_all add: init_audio_capture_def)
  have hr: "0 < chunk_size (config ?sr)" "has_transcriber ?sr"
    by (simp_all add: init_audio_capture_def)
  have hf: "snd (record_device_to_memory Raises) = False"
    "snd (record_device_to_memory (Returns None)) = False"
    by (simp_all add: record_device_to_memory_def)
  note t = silent_cycle_is_dispatched [OF h h, where cfg = ?cfg and st = ?st
      and mic_rec = Raises and system_rec = "Returns None"]
  note tr = silent_cycle_is_dispatched [OF h h, where cfg = ?cfg and st = ?sr
      and mic_rec = Raises and system_rec = "Returns None"]
  have w1: "cycle_bytes ?cfg (Returns (Some (replicate 1 0))) (Returns (Some (replicate 1 0))) =
      Some [0, 0]"
    using t by (simp add: numeral_2_eq_2)
  from t hs obtain st' where
    "capture_cycle (Returns (Some (replicate 1 0))) (Returns (Some (replicate 1 0))) True ?st = Some st'"
    "forwarded st' = forwarded ?st @
        replicate (2 * max 1 1 div nat (chunk_size (config ?st)))
          (replicate (nat (chunk_size (config ?st))) 0)"
    "mixed_buffer st' = replicate (2 * max 1 1 mod nat (chunk_size (config ?st))) 0"
    by blast
  then have w2: "map_option forwarded
     (capture_cycle (Returns (Some (replicate 1 0))) (Returns (Some (replicate 1 0))) True ?st) =
       Some [[0, 0]]"
    and w3: "map_option mixed_buffer
     (capture_cycle (Returns (Some (replicate 1 0))) (Returns (Some (replicate 1 0))) True ?st) =
       Some []"
    by (simp_all add: init_audio_capture_def numeral_2_eq_2)
  have w4: "cycle_bytes ?cfg Raises (Returns None) = None"
    using t hf by blast
  from tr hr obtain sr' frames where r:
    "capture_cycle (Returns (Some (replicate 1 0))) (Returns (Some (replicate 1 0))) True ?sr = Some sr'"
    "forwarded sr' = forwarded ?sr @ frames"
    "length frames = (length (mixed_buffer ?sr) + 2 * max 1 1) div nat (chunk_size (config ?sr))"
    "length (mixed_buffer sr') =
       (length (mixed_buffer ?sr) + 2 * max 1 1) mod nat (chunk_size (config ?sr))"
    "concat frames @ mixed_buffer sr' = mixed_buffer ?sr @ replicate (2 * max 1 1) 0"
    by blast
  have fw0: "forwarded ?sr = []" and buf0: "mixed_buffer ?sr = [7]"
    and F: "nat (chunk_size (config ?sr)) = 2"
    by (simp_all add: init_audio_capture_def)
  have w5: "map_option (\<lambda>s. length (forwarded s))
     (capture_cycle (Returns (Some (replicate 1 0))) (Returns (Some (replicate 1 0))) True ?sr) = Some 1"
    using r(2,3) unfolding r(1) fw0 buf0 F by simp
  have w6: "map_option (\<lambda>s. length (mixed_buffer s))
     (capture_cycle (Returns (Some (replicate 1 0))) (Returns (Some (replicate 1 0))) True ?sr) = Some 1"
    using r(4) unfolding r(1) buf0 F by simp
  have w7: "map_option (\<lambda>s. concat (forwarded s) @ mixed_buffer s)
     (capture_cycle (Returns (Some (replicate 1 0))) (Returns (Some (replicate 1 0))) True ?sr) =
       Some [7, 0, 0]"
    using r(2,5) unfolding r(1) fw0 buf0 by (simp add: numeral_2_eq_2)
  have w8: "map_option forwarded
     (capture_cycle (Returns (Some (replicate 1 0))) (Returns (Some (replicate 1 0))) True ?sr) =
       Some [[7, 0]]"
    by (simp only: silent_cycle_onto_residue_example) simp
  have w9: "capture_cycle (Returns (Some (replicate 1 0))) (Returns (Some (replicate 1 0))) False ?sr =
      Some ?sr"
    using tr by blast
  from h hs hf w1 w2 w3 w4 hr w5 w6 w7 w8 w9 show ?thesis
    by blast
qed

text \<open>
  The claim as written fails for one cycle of the transcriber's configuration with half
  a second of silence on both devices (12000 zero samples each): the dispatcher receives
  24000 zero bytes and releases 23 frames of 1024 bytes.
\<close>

theorem silent_cycle_counterexample:
  "cycle_bytes transcriber_audio_config
     (Returns (Some (replicate 12000 0))) (Returns (Some (replicate 12000 0))) =
     Some (replicate 24000 0) \<and>
   map_option forwarded
     (capture_cycle (Returns (Some (replicate 12000 0))) (Returns (Some (replicate 12000 0))) True
        (init_audio_capture transcriber_audio_config True)) =
     Some (replicate 23 (replicate 1024 0)) \<and>
   map_option mixed_buffer
     (capture_cycle (Returns (Some (replicate 12000 0))) (Returns (Some (replicate 12000 0))) True
        (init_audio_capture transcriber_audio_config True)) =
     Some (replicate 448 0)"
proof -
  let ?st = "init_audio_capture transcriber_audio_config True"
  have cb: "cycle_bytes transcriber_audio_config
     (Returns (Some (replicate 12000 0))) (Returns (Some (replicate 12000 0))) =
     Some (replicate 24000 0)"
    using cycle_bytes_zeros [of 12000 12000 transcriber_audio_config] by simp
  have hs: "0 < chunk_size (config ?st)" "has_transcriber ?st" "mixed_buffer ?st = []"
    by (simp_all add: init_audio_capture_def transcriber_audio_config_def)
  have F: "nat (chunk_size (config ?st)) = 1024" and fw0: "forwarded ?st = []"
    by (simp_all add: init_audio_capture_def transcriber_audio_config_def)
  from dispatch_zero_bytes [OF hs, of 24000]
  obtain st' where "send_mixed_audio_data True (replicate 24000 0) ?st = Some st'"
    "forwarded st' = replicate 23 (replicate 1024 0)"
    "mixed_buffer st' = replicate 448 0"
    unfolding F fw0 by auto
  then show ?thesis
    using cb hs by (simp add: capture_cycle_def init_audio_capture_def)
qed

section \<open>The event handler and the stall watchdog\<close>

lemma handle_message_websocket: "websocket (handle_message now message s) = websocket s"
  by (auto simp: handle_message_def send_message_def update_transcript_def Let_def
      split: option.splits sum.splits if_splits)

lemma handle_message_running: "running (handle_message now message s) = running s"
  by (auto simp: handle_message_def send_message_def update_transcript_def Let_def
      split: option.splits sum.splits if_splits)

lemma handle_message_outbox: "\<exists>sent. outbox (handle_message now message s) = outbox s @ sent"
  by (auto simp: handle_message_def send_message_def update_transcript_def Let_def
      split: option.splits sum.splits if_splits)

lemma handle_all_websocket: "websocket (handle_all s msgs) = websocket s"
  by (induction s msgs rule: handle_all.induct) (simp_all add: handle_message_websocket)

lemma handle_all_outbox: "\<exists>sent. outbox (handle_all s msgs) = outbox s @ sent"
proof (induction s msgs rule: handle_all.induct)
  case (1 s)
  then show ?case by simp
next
  case (2 s now message rest)
  from handle_message_outbox [of now message s] 2 show ?case
    by auto
qed

lemma handle_all_append: "handle_all s (xs @ ys) = handle_all (handle_all s xs) ys"
  by (induction s xs rule: handle_all.induct) simp_all

lemma handle_message_marker_positive:
  "0 < now \<Longrightarrow> marker_positive s \<Longrightarrow> marker_positive (handle_message now message s)"
  by (auto simp: handle_message_def send_message_def update_transcript_def Let_def marker_positive_def
      split: option.splits sum.splits if_splits)

lemma marker_positive_init: "marker_positive (init_transcriber cb)"
  by (simp add: marker_positive_def init_transcriber_def)

lemma handle_all_marker_positive:
  "list_all (\<lambda>m. 0 < fst m) msgs \<Longrightarrow> marker_positive s \<Longrightarrow> marker_positive (handle_all s msgs)"
  by (induction s msgs rule: handle_all.induct) (simp_all add: handle_message_marker_positive)

lemma watchdog_marker_positive:
  "marker_positive s \<Longrightarrow> marker_positive (fst (check_processing_timeout_step now s))"
  by (simp add: check_processing_timeout_step_def send_message_def marker_positive_def)

text \<open>
  C7. While the connection is set, an inbound \<^verbatim>\<open>input_audio_buffer.speech_stopped\<close> event
  makes the handler pass exactly one message to \<^verbatim>\<open>websocket.send\<close>, the
  \<^verbatim>\<open>input_audio_buffer.commit\<close>, and changes nothing else. The inbound events are handled
  one after the other in arrival order: the events that follow are handled from the
  state in which the commit has been sent, so the commit precedes in the outbox whatever
  their handling sends.
\<close>

theorem speech_stopped_commits_once:
  assumes ws: "websocket s"
    and ev: "dict_get data ''type'' (JStr []) = Some (JStr ''input_audio_buffer.speech_stopped'')"
  shows "handle_message now (Some data) (handle_all s before) =
           (handle_all s before)\<lparr> outbox := outbox (handle_all s before) @ [Commit] \<rparr> \<and>
         handle_all s (before @ (now, Some data) # after) =
           handle_all ((handle_all s before)\<lparr> outbox := outbox (handle_all s before) @ [Commit] \<rparr>) after \<and>
         (\<exists>later. outbox (handle_all s (before @ (now, Some data) # after)) =
            outbox (handle_all s before) @ [Commit] @ later)"
proof -
  let ?s1 = "handle_all s before"
  have "websocket ?s1"
    using ws by (simp add: handle_all_websocket)
  then have step: "handle_message now (Some data) ?s1 = ?s1\<lparr> outbox := outbox ?s1 @ [Commit] \<rparr>"
    using ev by (simp add: handle_message_def send_message_def)
  then have run: "handle_all s (before @ (now, Some data) # after) =
      handle_all (?s1\<lparr> outbox := outbox ?s1 @ [Commit] \<rparr>) after"
    by (simp add: handle_all_append)
  from handle_all_outbox [of "?s1\<lparr> outbox := outbox ?s1 @ [Commit] \<rparr>" after]
  have "\<exists>later. outbox (handle_all s (before @ (now, Some data) # after)) =
      outbox ?s1 @ [Commit] @ later"
    unfolding run by simp
  with step run show ?thesis
    by blast
qed

lemma handled_example:
  "handle_all ((init_transcriber None)\<lparr> websocket := True, running := True \<rparr>)
     [(1, Some committed_event), (2, Some speech_stopped_event),
      (3, Some (completed_event '' it depends ''))] =
   (init_transcriber None)\<lparr> websocket := True, running := True, outbox := [Commit],
      chunks := [(''it depends'', 3)], full_transcript := ''it depends'' \<rparr>"
  by (simp add: handle_message_def committed_event_def speech_stopped_event_def completed_event_def
     send_message_def init_transcriber_def update_transcript_def py_strip_def py_isspace_def
     py_isspace_char_def deque_append_def MAX_CHUNKS_def Let_def)

theorem speech_stopped_commits_once_witness:
  "websocket ((init_transcriber None)\<lparr> websocket := True, running := True \<rparr>) \<and>
   dict_get speech_stopped_event ''type'' (JStr []) =
     Some (JStr ''input_audio_buffer.speech_stopped'') \<and>
   handle_message 2 (Some speech_stopped_event)
     (handle_all ((init_transcriber None)\<lparr> websocket := True, running := True \<rparr>)
        [(1, Some committed_event)]) =
     (handle_all ((init_transcriber None)\<lparr> websocket := True, running := True \<rparr>)
        [(1, Some committed_event)])\<lparr> outbox := [Commit] \<rparr> \<and>
   outbox (handle_all ((init_transcriber None)\<lparr> websocket := True, running := True \<rparr>)
     [(1, Some committed_event), (2, Some speech_stopped_event),
      (3, Some (completed_event '' it depends ''))]) = [Commit]"
proof -
  let ?s = "(init_transcriber None)\<lparr> websocket := True, running := True \<rparr>"
  have h1: "websocket ?s"
    by simp
  have h2: "dict_get speech_stopped_event ''type'' (JStr []) =
      Some (JStr ''input_audio_buffer.speech_stopped'')"
    by (simp add: speech_stopped_event_def)
  have o: "outbox (handle_all ?s [(1, Some committed_event)]) = []"
    by (simp add: handle_message_def committed_event_def init_transcriber_def)
  note t = speech_stopped_commits_once [OF h1 h2, where now = 2 and
      before = "[(1, Some committed_event)]" and
      after = "[(3, Some (completed_event '' it depends ''))]"]
  have w1: "handle_message 2 (Some speech_stopped_event) (handle_all ?s [(1, Some committed_event)]) =
      (handle_all ?s [(1, Some committed_event)])\<lparr> outbox := [Commit] \<rparr>"
    using t unfolding o by simp
  have w2: "outbox (handle_all ?s [(1, Some committed_event), (2, Some speech_stopped_event),
      (3, Some (completed_event '' it depends ''))]) = [Commit]"
    by (simp only: handled_example) simp
  from h1 h2 w1 w2 show ?thesis
    by blast
qed

lemma update_transcript_returns:
  assumes "\<forall>cb. callback s = Some cb \<longrightarrow> cb x"
  shows "\<exists>s'. update_transcript now x s = Inr s'"
proof (cases "callback s")
  case None
  then show ?thesis
    by (simp add: update_transcript_def Let_def)
next
  case (Some cb)
  with assms have "cb x" by simp
  with Some show ?thesis
    by (simp add: update_transcript_def Let_def)
qed

lemma handle_failed_resets:
  assumes "dict_get ev ''type'' (JStr []) =
             Some (JStr ''conversation.item.input_audio_transcription.failed'')"
  shows "processing_start_time (handle_message t (Some ev) s) = None"
  using assms by (simp add: handle_message_def)

lemma handle_completed_resets:
  assumes ty: "dict_get ev ''type'' (JStr []) =
             Some (JStr ''conversation.item.input_audio_transcription.completed'')"
    and tr: "dict_get ev ''transcript'' (JStr []) = Some (JStr tr)"
    and cb: "\<forall>cb. callback s = Some cb \<longrightarrow> cb (py_strip tr)"
  shows "processing_start_time (handle_message t (Some ev) s) = None"
proof -
  from update_transcript_returns [OF cb] obtain s' where
    u: "update_transcript t (py_strip tr) s = Inr s'" by blast
  have "handle_message t (Some ev) s =
      (if py_strip tr \<noteq> [] then s'\<lparr> processing_start_time := None \<rparr>
       else s\<lparr> processing_start_time := None \<rparr>)"
    using ty tr u by (simp add: handle_message_def)
  then show ?thesis
    by simp
qed

text \<open>
  C6. An iteration of the watchdog loop on a running transcriber with its connection
  set ends with a sleep of exactly one second. It clears the marker and passes exactly
  one \<^verbatim>\<open>input_audio_buffer.clear\<close> to \<^verbatim>\<open>websocket.send\<close> if the marker is set and more than five
  seconds older than the clock reading of the iteration; otherwise it changes nothing.
  In both cases the connection, the running flag and the thread are left as they were.
  A \<^verbatim>\<open>committed\<close> event sets the marker to its clock reading. A \<^verbatim>\<open>failed\<close> event, and a
  \<^verbatim>\<open>completed\<close> event with a string transcript whose callback returns, reset the marker;
  an iteration of the watchdog after such an event changes nothing, whatever the clock
  says.
\<close>

theorem watchdog_clears_stalled_marker:
  assumes run: "running s" and ws: "websocket s" and pos: "marker_positive s"
  shows "check_processing_timeout_step now s =
           (if \<exists>started. processing_start_time s = Some started \<and> 5 < now - started
            then (s\<lparr> processing_start_time := None, outbox := outbox s @ [Clear] \<rparr>, Some 1)
            else (s, Some 1)) \<and>
         websocket (fst (check_processing_timeout_step now s)) \<and>
         running (fst (check_processing_timeout_step now s)) \<and>
         thread_started (fst (check_processing_timeout_step now s)) = thread_started s \<and>
         (dict_get ev ''type'' (JStr []) = Some (JStr ''input_audio_buffer.committed'') \<longrightarrow>
            processing_start_time (handle_message t (Some ev) s) = Some t) \<and>
         ((dict_get ev ''type'' (JStr []) =
             Some (JStr ''conversation.item.input_audio_transcription.failed'') \<or>
           dict_get ev ''type'' (JStr []) =
             Some (JStr ''conversation.item.input_audio_transcription.completed'') \<and>
           dict_get ev ''transcript'' (JStr []) = Some (JStr tr) \<and>
           (\<forall>cb. callback s = Some cb \<longrightarrow> cb (py_strip tr))) \<longrightarrow>
            processing_start_time (handle_message t (Some ev) s) = None \<and>
            check_processing_timeout_step now (handle_message t (Some ev) s) =
              (handle_message t (Some ev) s, Some 1))"
proof -
  have timed: "processing_timed_out now s \<longleftrightarrow>
      (\<exists>started. processing_start_time s = Some started \<and> 5 < now - started)"
    using pos by (auto simp: processing_timed_out_def marker_positive_def split: option.splits)
  have step: "check_processing_timeout_step now s =
           (if \<exists>started. processing_start_time s = Some started \<and> 5 < now - started
            then (s\<lparr> processing_start_time := None, outbox := outbox s @ [Clear] \<rparr>, Some 1)
            else (s, Some 1))"
  proof (cases "\<exists>started. processing_start_time s = Some started \<and> 5 < now - started")
    case True
    then have "processing_timed_out now s"
      using timed by blast
    then have "check_processing_timeout_step now s =
        (s\<lparr> processing_start_time := None, outbox := outbox s @ [Clear] \<rparr>, Some 1)"
      using run ws by (simp add: check_processing_timeout_step_def send_message_def)
    then show ?thesis
      by (simp only: if_P [OF True])
  next
    case False
    then have "\<not> processing_timed_out now s"
      using timed by blast
    then have "check_processing_timeout_step now s = (s, Some 1)"
      using run by (simp add: check_processing_timeout_step_def)
    then show ?thesis
      by (simp only: if_not_P [OF False])
  qed
  have conn: "websocket (fst (check_processing_timeout_step now s))"
    "running (fst (check_processing_timeout_step now s))"
    "thread_started (fst (check_processing_timeout_step now s)) = thread_started s"
    using run ws by (simp_all add: check_processing_timeout_step_def send_message_def)
  have set: "processing_start_time (handle_message t (Some ev) s) = Some t"
    if "dict_get ev ''type'' (JStr []) = Some (JStr ''input_audio_buffer.committed'')"
    using that by (simp add: handle_message_def)
  have reset: "processing_start_time (handle_message t (Some ev) s) = None"
    if "dict_get ev ''type'' (JStr []) =
             Some (JStr ''conversation.item.input_audio_transcription.failed'') \<or>
           dict_get ev ''type'' (JStr []) =
             Some (JStr ''conversation.item.input_audio_transcription.completed'') \<and>
           dict_get ev ''transcript'' (JStr []) = Some (JStr tr) \<and>
           (\<forall>cb. callback s = Some cb \<longrightarrow> cb (py_strip tr))"
    using that handle_failed_resets [of ev t s] handle_completed_resets [of ev tr s t]
    by blast
  have idle: "check_processing_timeout_step now (handle_message t (Some ev) s) =
              (handle_message t (Some ev) s, Some 1)"
    if "processing_start_time (handle_message t (Some ev) s) = None"
    using that run
    by (simp add: check_processing_timeout_step_def processing_timed_out_def handle_message_running)
  have A: "dict_get ev ''type'' (JStr []) = Some (JStr ''input_audio_buffer.committed'') \<longrightarrow>
            processing_start_time (handle_message t (Some ev) s) = Some t"
    using set by blast
  have B: "(dict_get ev ''type'' (JStr []) =
             Some (JStr ''conversation.item.input_audio_transcription.failed'') \<or>
           dict_get ev ''type'' (JStr []) =
             Some (JStr ''conversation.item.input_audio_transcription.completed'') \<and>
           dict_get ev ''transcript'' (JStr []) = Some (JStr tr) \<and>
           (\<forall>cb. callback s = Some cb \<longrightarrow> cb (py_strip tr))) \<longrightarrow>
            processing_start_time (handle_message t (Some ev) s) = None \<and>
            check_processing_timeout_step now (handle_message t (Some ev) s) =
              (handle_message t (Some ev) s, Some 1)"
    using reset idle by blast
  show ?thesis
    by (intro conjI) (rule step conn A B)+
qed


theorem watchdog_clears_stalled_marker_witness:
  "running ((init_transcriber None)\<lparr> websocket := True, running := True,
              processing_start_time := Some 100 \<rparr>) \<and>
   websocket ((init_transcriber None)\<lparr> websocket := True, running := True,
              processing_start_time := Some 100 \<rparr>) \<and>
   marker_positive ((init_transcriber None)\<lparr> websocket := True, running := True,
              processing_start_time := Some 100 \<rparr>) \<and>
   check_processing_timeout_step 106
     ((init_transcriber None)\<lparr> websocket := True, running := True,
              processing_start_time := Some 100 \<rparr>) =
     ((init_transcriber None)\<lparr> websocket := True, running := True,
              processing_start_time := None, outbox := [Clear] \<rparr>, Some 1) \<and>
   check_processing_timeout_step 105
     ((init_transcriber None)\<lparr> websocket := True, running := True,
              processing_start_time := Some 100 \<rparr>) =
     ((init_transcriber None)\<lparr> websocket := True, running := True,
              processing_start_time := Some 100 \<rparr>, Some 1) \<and>
   dict_get committed_event ''type'' (JStr []) = Some (JStr ''input_audio_buffer.committed'') \<and>
   processing_start_time (handle_message 100 (Some committed_event)
     ((init_transcriber None)\<lparr> websocket := True, running := True,
              processing_start_time := Some 100 \<rparr>)) = Some 100 \<and>
   dict_get failed_event ''type'' (JStr []) =
     Some (JStr ''conversation.item.input_audio_transcription.failed'') \<and>
   processing_start_time (handle_message 107 (Some failed_event)
     ((init_transcriber None)\<lparr> websocket := True, running := True,
              processing_start_time := Some 100 \<rparr>)) = None \<and>
   check_processing_timeout_step 106 (handle_message 107 (Some failed_event)
     ((init_transcriber None)\<lparr> websocket := True, running := True,
              processing_start_time := Some 100 \<rparr>)) =
     (handle_message 107 (Some failed_event)
        ((init_transcriber None)\<lparr> websocket := True, running := True,
              processing_start_time := Some 100 \<rparr>), Some 1) \<and>
   dict_get (completed_event ''ok'') ''type'' (JStr []) =
     Some (JStr ''conversation.item.input_audio_transcription.completed'') \<and>
   dict_get (completed_event ''ok'') ''transcript'' (JStr []) = Some (JStr ''ok'') \<and>
   callback ((init_transcriber None)\<lparr> websocket := True, running := True,
              processing_start_time := Some 100 \<rparr>) = None \<and>
   processing_start_time (handle_message 107 (Some (completed_event ''ok''))
     ((init_transcriber None)\<lparr> websocket := True, running := True,
              processing_start_time := Some 100 \<rparr>)) = None"
proof -
  let ?s = "(init_transcriber None)\<lparr> websocket := True, running := True,
              processing_start_time := Some 100 \<rparr>"
  have h: "running ?s" "websocket ?s" "marker_positive ?s"
    by (simp_all add: marker_positive_def)
  have hc: "dict_get committed_event ''type'' (JStr []) = Some (JStr ''input_audio_buffer.committed'')"
    by (simp add: committed_event_def)
  have hf: "dict_get failed_event ''type'' (JStr []) =
      Some (JStr ''conversation.item.input_audio_transcription.failed'')"
    by (simp add: failed_event_def)
  note t1 = watchdog_clears_stalled_marker [OF h, where now = 106 and ev = failed_event and t = 107]
  note t2 = watchdog_clears_stalled_marker [OF h, where now = 105 and ev = committed_event and t = 100]
  have late: "\<exists>started. processing_start_time ?s = Some started \<and> 5 < 106 - started"
    by simp
  have early: "\<not> (\<exists>started. processing_start_time ?s = Some started \<and> 5 < 105 - started)"
    by simp
  have w1: "check_processing_timeout_step 106 ?s =
      (?s\<lparr> processing_start_time := None, outbox := outbox ?s @ [Clear] \<rparr>, Some 1)"
    using t1 by (simp only: if_P [OF late])
  have w2: "check_processing_timeout_step 105 ?s = (?s, Some 1)"
    using t2 by (simp only: if_not_P [OF early])
  have w3: "processing_start_time (handle_message 100 (Some committed_event) ?s) = Some 100"
    using t2 hc by blast
  have w4: "processing_start_time (handle_message 107 (Some failed_event) ?s) = None"
    "check_processing_timeout_step 106 (handle_message 107 (Some failed_event) ?s) =
       (handle_message 107 (Some failed_event) ?s, Some 1)"
    using t1 hf by blast+
  have w1': "check_processing_timeout_step 106 ?s =
     ((init_transcriber None)\<lparr> websocket := True, running := True,
              processing_start_time := None, outbox := [Clear] \<rparr>, Some 1)"
    unfolding w1 by (simp add: init_transcriber_def)
  have hk: "dict_get (completed_event ''ok'') ''type'' (JStr []) =
      Some (JStr ''conversation.item.input_audio_transcription.completed'')"
    "dict_get (completed_event ''ok'') ''transcript'' (JStr []) = Some (JStr ''ok'')"
    "callback ?s = None"
    by (simp_all add: completed_event_def init_transcriber_def)
  note t3 = watchdog_clears_stalled_marker [OF h, where now = 106 and
      ev = "completed_event ''ok''" and t = 107 and tr = "''ok''"]
  have w5: "processing_start_time (handle_message 107 (Some (completed_event ''ok'')) ?s) = None"
    using t3 hk by simp
  from h hc hf w1' w2 w3 w4 hk w5 show ?thesis
    by (intro conjI)
qed

section \<open>Session bootstrap\<close>

lemma create_session_ok_iff:
  "fst (create_transcription_session http s) \<longleftrightarrow>
     (\<exists>status data v. http = Response status (Some data) \<and> \<not> raise_for_status status \<and>
        extract_client_secret data = Some v \<and> truthy v)"
  by (auto simp: create_transcription_session_def Let_def split: http_result.splits option.splits)

lemma create_session_ok_state:
  assumes "fst (create_transcription_session http s)"
  shows "\<exists>status data v. http = Response status (Some data) \<and>
           extract_client_secret data = Some v \<and>
           snd (create_transcription_session http s) = s\<lparr> session_data := data, client_secret := v \<rparr>"
  using assms
  by (auto simp: create_transcription_session_def Let_def split: http_result.splits option.splits if_splits)

lemma create_session_failed_state:
  "running (snd (create_transcription_session http s)) = running s \<and>
   thread_started (snd (create_transcription_session http s)) = thread_started s \<and>
   websocket (snd (create_transcription_session http s)) = websocket s \<and>
   outbox (snd (create_transcription_session http s)) = outbox s"
  by (auto simp: create_transcription_session_def Let_def split: http_result.splits option.splits)

text \<open>
  C8 (amended). On a transcriber that is not running, the session bootstrap succeeds
  exactly when the POST returns a response whose status is not an error status of
  \<^verbatim>\<open>raise_for_status\<close> (400 to 599), whose body parses to an object from which the nested
  \<^verbatim>\<open>client_secret.value\<close> can be read, and that value is truthy. On success \<^verbatim>\<open>start\<close> stores
  the value as the credential, sets the running flag and starts the thread that makes
  the realtime connection. In every other case (an exception of the POST, a 4xx or 5xx
  status, a body that does not parse or is not of that shape, a credential that is
  missing, null or empty) \<^verbatim>\<open>start\<close> returns with the transcriber not running, no thread
  started, no connection and nothing sent.
\<close>

theorem bootstrap_fails_or_connects:
  assumes nr: "\<not> running s"
  shows "(fst (create_transcription_session http s) \<longleftrightarrow>
            (\<exists>status data v. http = Response status (Some data) \<and> \<not> raise_for_status status \<and>
               extract_client_secret data = Some v \<and> truthy v)) \<and>
         (raise_for_status code \<longleftrightarrow> 400 \<le> code \<and> code < 600) \<and>
         (fst (create_transcription_session http s) \<longrightarrow>
            running (start http s) \<and> thread_started (start http s) \<and>
            (\<exists>status data. http = Response status (Some data) \<and>
               extract_client_secret data = Some (client_secret (start http s)))) \<and>
         (\<not> fst (create_transcription_session http s) \<longrightarrow>
            \<not> running (start http s) \<and> thread_started (start http s) = thread_started s \<and>
            websocket (start http s) = websocket s \<and> outbox (start http s) = outbox s)"
proof -
  obtain ok s' where c: "create_transcription_session http s = (ok, s')"
    by (cases "create_transcription_session http s")
  have st: "start http s = (if ok then s'\<lparr> running := True, thread_started := True \<rparr> else s')"
    using nr by (simp add: start_def c)
  have good: "running (start http s) \<and> thread_started (start http s) \<and>
            (\<exists>status data. http = Response status (Some data) \<and>
               extract_client_secret data = Some (client_secret (start http s)))"
    if "fst (create_transcription_session http s)"
  proof -
    from create_session_ok_state [OF that] obtain status data v where
      h: "http = Response status (Some data)" and x: "extract_client_secret data = Some v"
      and s': "s' = s\<lparr> session_data := data, client_secret := v \<rparr>"
      by (auto simp: c)
    have ok using that by (simp add: c)
    then have st': "start http s =
        s\<lparr> session_data := data, client_secret := v, running := True, thread_started := True \<rparr>"
      by (simp add: st s')
    have "extract_client_secret data = Some (client_secret (start http s))"
      unfolding st' using x by simp
    with h have "\<exists>status data. http = Response status (Some data) \<and>
               extract_client_secret data = Some (client_secret (start http s))"
      by blast
    moreover have "running (start http s)" "thread_started (start http s)"
      unfolding st' by simp_all
    ultimately show ?thesis
      by blast
  qed
  have bad: "\<not> running (start http s) \<and> thread_started (start http s) = thread_started s \<and>
            websocket (start http s) = websocket s \<and> outbox (start http s) = outbox s"
    if "\<not> fst (create_transcription_session http s)"
  proof -
    have "\<not> ok" using that by (simp add: c)
    then show ?thesis
      using create_session_failed_state [of http s] nr by (simp add: st c)
  qed
  have rs: "raise_for_status code \<longleftrightarrow> 400 \<le> code \<and> code < 600"
    by (simp add: raise_for_status_def)
  have G: "fst (create_transcription_session http s) \<longrightarrow>
            running (start http s) \<and> thread_started (start http s) \<and>
            (\<exists>status data. http = Response status (Some data) \<and>
               extract_client_secret data = Some (client_secret (start http s)))"
    using good by blast
  have B: "\<not> fst (create_transcription_session http s) \<longrightarrow>
            \<not> running (start http s) \<and> thread_started (start http s) = thread_started s \<and>
            websocket (start http s) = websocket s \<and> outbox (start http s) = outbox s"
    using bad by blast
  show ?thesis
    by (intro conjI) (rule create_session_ok_iff rs G B)+
qed

theorem bootstrap_fails_or_connects_witness:
  "\<not> running (init_transcriber None) \<and>
   fst (create_transcription_session (Response 200 (Some (session_body (JStr ''ek_1''))))
     (init_transcriber None)) \<and>
   running (start (Response 200 (Some (session_body (JStr ''ek_1'')))) (init_transcriber None)) \<and>
   thread_started (start (Response 200 (Some (session_body (JStr ''ek_1'')))) (init_transcriber None)) \<and>
   client_secret (start (Response 200 (Some (session_body (JStr ''ek_1'')))) (init_transcriber None)) =
     JStr ''ek_1'' \<and>
   raise_for_status 401 \<and>
   \<not> fst (create_transcription_session (Response 401 (Some (session_body (JStr ''ek_1''))))
     (init_transcriber None)) \<and>
   \<not> running (start (Response 401 (Some (session_body (JStr ''ek_1'')))) (init_transcriber None)) \<and>
   \<not> thread_started (start (Response 401 (Some (session_body (JStr ''ek_1'')))) (init_transcriber None)) \<and>
   \<not> running (start NetworkError (init_transcriber None)) \<and>
   \<not> running (start (Response 200 (Some (JObj [(''id'', JStr ''sess_1'')]))) (init_transcriber None))"
proof -
  let ?s = "init_transcriber None"
  let ?ok = "Response 200 (Some (session_body (JStr ''ek_1'')))"
  let ?denied = "Response 401 (Some (session_body (JStr ''ek_1'')))"
  let ?missing = "Response 200 (Some (JObj [(''id'', JStr ''sess_1'')]))"
  have h: "\<not> running ?s"
    by (simp add: init_transcriber_def)
  have x: "extract_client_secret (session_body (JStr ''ek_1'')) = Some (JStr ''ek_1'')"
    by (simp add: extract_client_secret_def session_body_def)
  have xm: "extract_client_secret (JObj [(''id'', JStr ''sess_1'')]) = Some JNull"
    by (simp add: extract_client_secret_def)
  note t1 = bootstrap_fails_or_connects [OF h, where http = ?ok and code = 401]
  note t2 = bootstrap_fails_or_connects [OF h, where http = ?denied and code = 401]
  note t3 = bootstrap_fails_or_connects [OF h, where http = NetworkError and code = 401]
  note t4 = bootstrap_fails_or_connects [OF h, where http = ?missing and code = 401]
  have r: "raise_for_status 401" "\<not> raise_for_status 200"
    using t1 by (simp_all add: raise_for_status_def)
  have ok1: "fst (create_transcription_session ?ok ?s)"
    using t1 x r by simp
  then have w1: "running (start ?ok ?s)" "thread_started (start ?ok ?s)"
    "client_secret (start ?ok ?s) = JStr ''ek_1''"
    using t1 x by auto
  have "\<not> fst (create_transcription_session ?denied ?s)"
    using t2 r by simp
  then have w2: "\<not> fst (create_transcription_session ?denied ?s)" "\<not> running (start ?denied ?s)"
    "\<not> thread_started (start ?denied ?s)"
    using t2 by (auto simp: init_transcriber_def)
  have "\<not> fst (create_transcription_session NetworkError ?s)"
    using t3 by simp
  then have w3: "\<not> running (start NetworkError ?s)"
    using t3 by blast
  have "\<not> fst (create_transcription_session ?missing ?s)"
    using t4 xm by simp
  then have w4: "\<not> running (start ?missing ?s)"
    using t4 by blast
  from h ok1 w1 r(1) w2 w3 w4 show ?thesis
    by (intro conjI)
qed

text \<open>
  The claim as written fails in both directions. A response with status 300, which is
  not a 2xx status, and a credential in its body passes \<^verbatim>\<open>raise_for_status\<close>: the bootstrap
  succeeds and \<^verbatim>\<open>start\<close> goes on to connect. A 200 response whose credential field is
  present but holds the empty string fails the bootstrap.
\<close>

theorem bootstrap_non_2xx_counterexample:
  "\<not> (200 \<le> (300::nat) \<and> (300::nat) < 300) \<and>
   fst (create_transcription_session (Response 300 (Some (session_body (JStr ''ek_1''))))
     (init_transcriber None)) \<and>
   running (start (Response 300 (Some (session_body (JStr ''ek_1'')))) (init_transcriber None)) \<and>
   thread_started (start (Response 300 (Some (session_body (JStr ''ek_1'')))) (init_transcriber None)) \<and>
   dict_get (JObj [(''value'', JStr [])]) ''value'' JNull = Some (JStr []) \<and>
   \<not> fst (create_transcription_session (Response 200 (Some (session_body (JStr []))))
     (init_transcriber None)) \<and>
   \<not> running (start (Response 200 (Some (session_body (JStr [])))) (init_transcriber None))"
  by (simp add: create_transcription_session_def start_def raise_for_status_def
      extract_client_secret_def session_body_def init_transcriber_def Let_def)

end
